theory Spec2Isabelle
  imports Complex_Main "HOL-Library.Sublist" "HOL-Library.AList" "HOL-Library.Char_ord"
begin

section \<open>JavaScript strings\<close>

text \<open>
  A JavaScript string is a sequence of UTF-16 code units.  The model uses \<^typ>\<open>string\<close>;
  \<open>length\<close> is the source's \<^verbatim>\<open>.length\<close>.  Its alphabet is the code units of ASCII and
  Latin-1, without the two controls \<^verbatim>\<open>U+0080\<close> and \<^verbatim>\<open>U+0081\<close>, and two code units above
  them: \<^verbatim>\<open>U+0130\<close> (capital I with dot above) and \<^verbatim>\<open>U+0307\<close> (combining dot above).
  Lower-casing \<^verbatim>\<open>U+0130\<close> gives the two code units \<^verbatim>\<open>U+0069 U+0307\<close>, so that
  \<^verbatim>\<open>toLowerCase()\<close> can make a text longer, as it can in JavaScript.  The two are written
  with the character codes \<open>0x80\<close> and \<open>0x81\<close>, which the two controls left free.  The
  functions below are the built-in string methods the sources call, written out.
\<close>

definition I_dot :: char where
  "I_dot = CHR 0x80"

definition dot_above :: char where
  "dot_above = CHR 0x81"

text \<open>\<^verbatim>\<open>c.charCodeAt(0)\<close>\<close>

definition code :: "char \<Rightarrow> nat" where
  "code c = (if c = I_dot then 0x130 else if c = dot_above then 0x307 else of_char c)"

text \<open>\<^verbatim>\<open>s.includes(sub)\<close>\<close>

fun js_includes :: "string \<Rightarrow> string \<Rightarrow> bool" where
  "js_includes [] sub = (sub = [])"
| "js_includes (c # cs) sub = (prefix sub (c # cs) \<or> js_includes cs sub)"

text \<open>\<^verbatim>\<open>s.indexOf(sub)\<close>; \<open>None\<close> is the source's \<open>-1\<close>.\<close>

fun indexOf :: "string \<Rightarrow> string \<Rightarrow> nat option" where
  "indexOf [] sub = (if sub = [] then Some 0 else None)"
| "indexOf (c # cs) sub =
     (if prefix sub (c # cs) then Some 0 else map_option Suc (indexOf cs sub))"

text \<open>The decimal digits of a number, as a template literal prints it.\<close>

fun string_of_nat :: "nat \<Rightarrow> string" where
  "string_of_nat n =
     (if n < 10 then [char_of (48 + n)]
      else string_of_nat (n div 10) @ [char_of (48 + n mod 10)])"

declare string_of_nat.simps [simp del]

text \<open>
  A thrown value: an \<^verbatim>\<open>Error\<close> (or another object) carrying a string \<^verbatim>\<open>message\<close>, or a
  value without one.
\<close>

datatype js_error = Error string | Thrown

text \<open>
  White space, as \<^verbatim>\<open>\s\<close> and \<^verbatim>\<open>trim()\<close> understand it: tab, line feed, vertical tab, form
  feed, carriage return, space and the no-break space (the white space and line terminator
  code units of the alphabet).
\<close>

definition is_space :: "char \<Rightarrow> bool" where
  "is_space c = (c \<in> set [CHR 0x09, CHR 0x0A, CHR 0x0B, CHR 0x0C, CHR 0x0D, CHR 0x20, CHR 0xA0])"

text \<open>\<^verbatim>\<open>s.trim()\<close>\<close>

definition trim :: "string \<Rightarrow> string" where
  "trim s = rev (dropWhile is_space (rev (dropWhile is_space s)))"

text \<open>\<^verbatim>\<open>s.lastIndexOf(c)\<close> for a single character; \<open>None\<close> is the source's \<open>-1\<close>.\<close>

fun lastIndexOf_char :: "string \<Rightarrow> char \<Rightarrow> nat option" where
  "lastIndexOf_char [] c = None"
| "lastIndexOf_char (x # xs) c =
     (case lastIndexOf_char xs c of
        Some i \<Rightarrow> Some (Suc i)
      | None \<Rightarrow> if x = c then Some 0 else None)"

text \<open>\<^verbatim>\<open>s.slice(a, b)\<close> and \<^verbatim>\<open>s.substring(a, b)\<close> for \<open>0 \<le> a\<close> and \<open>0 \<le> b\<close>.\<close>

definition slice :: "string \<Rightarrow> nat \<Rightarrow> nat \<Rightarrow> string" where
  "slice s a b = take (b - a) (drop a s)"

text \<open>The number of matches of a single-character pattern such as \<^verbatim>\<open>/\{/g\<close>.\<close>

definition count_char :: "char \<Rightarrow> string \<Rightarrow> nat" where
  "count_char c s = length (filter (\<lambda>x. x = c) s)"

subsection \<open>Character classes and case\<close>

text \<open>
  The lower case of a single code unit: the ASCII capitals and the Latin-1 capitals
  (\<^verbatim>\<open>U+00C0\<close> to \<^verbatim>\<open>U+00DE\<close> without the multiplication sign) move up by 32; every other
  code unit of the alphabet that lower-cases to one code unit is its own lower case.
\<close>

definition is_upper :: "char \<Rightarrow> bool" where
  "is_upper c =
     ((CHR ''A'' \<le> c \<and> c \<le> CHR ''Z'') \<or> (CHR 0xC0 \<le> c \<and> c \<le> CHR 0xDE \<and> c \<noteq> CHR 0xD7))"

definition to_lower :: "char \<Rightarrow> char" where
  "to_lower c = (if is_upper c then char_of (code c + 32) else c)"

text \<open>
  \<^verbatim>\<open>s.toLowerCase()\<close>: code unit by code unit, except that \<^verbatim>\<open>U+0130\<close> becomes the two
  code units \<^verbatim>\<open>U+0069 U+0307\<close> (the one unconditional entry of Unicode's special casing
  that applies within the alphabet).
\<close>

fun toLowerCase :: "string \<Rightarrow> string" where
  "toLowerCase [] = []"
| "toLowerCase (c # cs) =
     (if c = I_dot then CHR ''i'' # dot_above # toLowerCase cs else to_lower c # toLowerCase cs)"

declare toLowerCase.simps [simp del]

text \<open>
  Two characters match under the \<^verbatim>\<open>i\<close> flag of a regular expression when their
  canonical forms (the upper case, where that is a single code unit) agree; on the
  alphabet that is equality after \<open>to_lower\<close>, and \<^verbatim>\<open>U+0130\<close> and \<^verbatim>\<open>U+0307\<close> match
  only themselves.
\<close>

definition ci_eq :: "char \<Rightarrow> char \<Rightarrow> bool" where
  "ci_eq c d = (to_lower c = to_lower d)"

fun prefix_ci :: "string \<Rightarrow> string \<Rightarrow> bool" where
  "prefix_ci [] s = True"
| "prefix_ci (p # ps) [] = False"
| "prefix_ci (p # ps) (c # cs) = (ci_eq p c \<and> prefix_ci ps cs)"

text \<open>The first position at which \<open>pat\<close> matches case-insensitively.\<close>

fun indexOf_ci :: "string \<Rightarrow> string \<Rightarrow> nat option" where
  "indexOf_ci [] pat = (if pat = [] then Some 0 else None)"
| "indexOf_ci (c # cs) pat =
     (if prefix_ci pat (c # cs) then Some 0 else map_option Suc (indexOf_ci cs pat))"

text \<open>\<^verbatim>\<open>[a-zA-Z]\<close>, \<^verbatim>\<open>[a-z0-9]\<close>, \<^verbatim>\<open>[a-zA-Z0-9]\<close> and \<^verbatim>\<open>\w\<close>.\<close>

definition is_alpha :: "char \<Rightarrow> bool" where
  "is_alpha c = ((CHR ''a'' \<le> c \<and> c \<le> CHR ''z'') \<or> (CHR ''A'' \<le> c \<and> c \<le> CHR ''Z''))"

definition is_lower_alnum :: "char \<Rightarrow> bool" where
  "is_lower_alnum c = ((CHR ''a'' \<le> c \<and> c \<le> CHR ''z'') \<or> (CHR ''0'' \<le> c \<and> c \<le> CHR ''9''))"

definition is_alnum :: "char \<Rightarrow> bool" where
  "is_alnum c = (is_alpha c \<or> (CHR ''0'' \<le> c \<and> c \<le> CHR ''9''))"

definition is_word_char :: "char \<Rightarrow> bool" where
  "is_word_char c = (is_alnum c \<or> c = CHR ''_'')"

subsection \<open>Splitting and joining\<close>

text \<open>
  \<^verbatim>\<open>s.split(/\s+/)\<close>: the pieces between the maximal runs of white space, the empty
  pieces at either end included.  \<open>gap\<close> says that the previous character was white space.
\<close>

fun split_ws_aux :: "bool \<Rightarrow> string \<Rightarrow> string \<Rightarrow> string list" where
  "split_ws_aux gap [] cur = [rev cur]"
| "split_ws_aux gap (c # cs) cur =
     (if is_space c
      then (if gap then split_ws_aux True cs cur else rev cur # split_ws_aux True cs [])
      else split_ws_aux False cs (c # cur))"

definition split_ws :: "string \<Rightarrow> string list" where
  "split_ws s = split_ws_aux False s []"

text \<open>\<^verbatim>\<open>ws.join(' ')\<close>\<close>

fun join_sp :: "string list \<Rightarrow> string" where
  "join_sp [] = []"
| "join_sp [w] = w"
| "join_sp (w # v # ws) = w @ CHR '' '' # join_sp (v # ws)"

text \<open>
  \<^verbatim>\<open>s.replace(/<[^>]*>/g, ' ')\<close>: a \<^verbatim>\<open><\<close> with a \<^verbatim>\<open>>\<close> somewhere after it starts a match
  that ends at the first such \<^verbatim>\<open>>\<close>.  \<open>inside\<close> says that the scan is within a match.
\<close>

fun strip_tags_aux :: "bool \<Rightarrow> string \<Rightarrow> string" where
  "strip_tags_aux inside [] = []"
| "strip_tags_aux inside (c # cs) =
     (if inside then (if c = CHR ''>'' then strip_tags_aux False cs else strip_tags_aux True cs)
      else if c = CHR ''<'' \<and> CHR ''>'' \<in> set cs then CHR '' '' # strip_tags_aux True cs
      else c # strip_tags_aux False cs)"

definition strip_tags :: "string \<Rightarrow> string" where
  "strip_tags s = strip_tags_aux False s"

text \<open>\<^verbatim>\<open>s.replace(/\s+/g, ' ')\<close>\<close>

fun collapse_ws_aux :: "bool \<Rightarrow> string \<Rightarrow> string" where
  "collapse_ws_aux gap [] = []"
| "collapse_ws_aux gap (c # cs) =
     (if is_space c
      then (if gap then collapse_ws_aux True cs else CHR '' '' # collapse_ws_aux True cs)
      else c # collapse_ws_aux False cs)"

definition collapse_ws :: "string \<Rightarrow> string" where
  "collapse_ws s = collapse_ws_aux False s"

text \<open>\<^verbatim>\<open>countWords\<close> of both link modules and the orchestrator.\<close>

definition countWords :: "string \<Rightarrow> nat" where
  "countWords text =
     (if text = [] then 0
      else length (filter (\<lambda>w. length w > 0) (split_ws (strip_tags text))))"

text \<open>\<^verbatim>\<open>escapeHtml\<close>\<close>

definition escapeHtml :: "string \<Rightarrow> string" where
  "escapeHtml str =
     concat (map (\<lambda>c. if c = CHR ''&'' then ''&amp;''
                        else if c = CHR ''<'' then ''&lt;''
                        else if c = CHR ''>'' then ''&gt;''
                        else if c = CHR 0x22 then ''&quot;''
                        else if c = CHR 0x27 then ''&#039;''
                        else [c]) str)"

text \<open>
  The replacement text of \<^verbatim>\<open>String.prototype.replace\<close> for a pattern without groups:
  \<^verbatim>\<open>$$\<close> is a dollar sign, \<^verbatim>\<open>$&\<close> the match, \<^verbatim>\<open>$`\<close> the text before it and \<^verbatim>\<open>$'\<close> the text
  after it; every other character stands for itself.
\<close>

fun expand_replacement :: "string \<Rightarrow> string \<Rightarrow> string \<Rightarrow> string \<Rightarrow> string" where
  "expand_replacement [] matched left right = []"
| "expand_replacement [c] matched left right = [c]"
| "expand_replacement (c # d # r) matched left right =
     (if c = CHR ''$'' \<and> d = CHR ''$'' then CHR ''$'' # expand_replacement r matched left right
      else if c = CHR ''$'' \<and> d = CHR ''&'' then matched @ expand_replacement r matched left right
      else if c = CHR ''$'' \<and> d = CHR 0x60 then left @ expand_replacement r matched left right
      else if c = CHR ''$'' \<and> d = CHR 0x27 then right @ expand_replacement r matched left right
      else c # expand_replacement (d # r) matched left right)"

text \<open>\<^verbatim>\<open>s.replace(pattern, replacement)\<close> for a string pattern: the first occurrence.\<close>

definition replace_first :: "string \<Rightarrow> string \<Rightarrow> string \<Rightarrow> string" where
  "replace_first s pat replacement =
     (case indexOf s pat of
        None \<Rightarrow> s
      | Some i \<Rightarrow>
          take i s
          @ expand_replacement replacement pat (take i s) (drop (i + length pat) s)
          @ drop (i + length pat) s)"

section \<open>Circuit breakers\<close>

text \<open>
  Two circuit breakers live in the repository.  The orchestrator
  (\<^verbatim>\<open>lib/ai-orchestrator.ts\<close>) keeps a module-level
  \<^verbatim>\<open>Map<string, {failures, lastFailure, isOpen}>\<close>; the LLM service
  (\<^verbatim>\<open>src/core/services/llm-service.ts\<close>) has a class \<^verbatim>\<open>CircuitBreaker\<close> whose
  state has the additional field \<^verbatim>\<open>successCount\<close>.  Both registries are maps from the
  provider name to the breaker's record; every mutation returns the updated registry.
  \<^verbatim>\<open>Date.now()\<close> is an integer number of milliseconds and is passed in as \<open>now\<close>.
  Log output is not part of the model.
\<close>

record breaker =
  failures :: nat
  lastFailure :: int
  isOpen :: bool

record CircuitBreakerState = breaker +
  successCount :: nat

type_synonym registry = "string \<rightharpoonup> breaker"

type_synonym states = "string \<rightharpoonup> CircuitBreakerState"

subsection \<open>The orchestrator's breaker\<close>

definition getCircuitBreaker :: "string \<Rightarrow> registry \<Rightarrow> breaker \<times> registry" where
  "getCircuitBreaker provider reg =
     (case reg provider of
        None \<Rightarrow>
          (let b = \<lparr>failures = 0, lastFailure = 0, isOpen = False\<rparr>
           in (b, reg(provider \<mapsto> b)))
      | Some b \<Rightarrow> (b, reg))"

definition recordFailure :: "int \<Rightarrow> string \<Rightarrow> registry \<Rightarrow> registry" where
  "recordFailure now provider reg =
     (let (b, reg1) = getCircuitBreaker provider reg;
          b1 = b\<lparr>failures := failures b + 1\<rparr>;
          b2 = b1\<lparr>lastFailure := now\<rparr>;
          b3 = (if failures b2 \<ge> 3 then b2\<lparr>isOpen := True\<rparr> else b2)
      in reg1(provider \<mapsto> b3))"

definition recordSuccess :: "string \<Rightarrow> registry \<Rightarrow> registry" where
  "recordSuccess provider reg =
     (let (b, reg1) = getCircuitBreaker provider reg;
          b1 = b\<lparr>failures := 0\<rparr>;
          b2 = b1\<lparr>isOpen := False\<rparr>
      in reg1(provider \<mapsto> b2))"

definition isCircuitOpen :: "int \<Rightarrow> string \<Rightarrow> registry \<Rightarrow> bool \<times> registry" where
  "isCircuitOpen now provider reg =
     (let (b, reg1) = getCircuitBreaker provider reg
      in if \<not> isOpen b then (False, reg1)
         else if now - lastFailure b > 60000 then (False, reg1)
         else (True, reg1))"

subsection \<open>The LLM service's breaker\<close>

definition failureThreshold :: nat where
  "failureThreshold = 3"

definition recoveryTimeout :: int where
  "recoveryTimeout = 60000"

definition halfOpenSuccessThreshold :: nat where
  "halfOpenSuccessThreshold = 2"

definition getState :: "string \<Rightarrow> states \<Rightarrow> CircuitBreakerState \<times> states" where
  "getState provider sts =
     (case sts provider of
        None \<Rightarrow>
          (let s = \<lparr>failures = 0, lastFailure = 0, isOpen = False, successCount = 0\<rparr>
           in (s, sts(provider \<mapsto> s)))
      | Some s \<Rightarrow> (s, sts))"

definition CircuitBreaker_recordFailure :: "int \<Rightarrow> string \<Rightarrow> states \<Rightarrow> states" where
  "CircuitBreaker_recordFailure now provider sts =
     (let (s, sts1) = getState provider sts;
          s1 = s\<lparr>failures := failures s + 1\<rparr>;
          s2 = s1\<lparr>lastFailure := now\<rparr>;
          s3 = s2\<lparr>successCount := 0\<rparr>;
          s4 = (if failures s3 \<ge> failureThreshold then s3\<lparr>isOpen := True\<rparr> else s3)
      in sts1(provider \<mapsto> s4))"

definition CircuitBreaker_recordSuccess :: "string \<Rightarrow> states \<Rightarrow> states" where
  "CircuitBreaker_recordSuccess provider sts =
     (let (s, sts1) = getState provider sts;
          s1 = s\<lparr>successCount := successCount s + 1\<rparr>;
          s2 = (if isOpen s1 \<and> successCount s1 \<ge> halfOpenSuccessThreshold
                then s1\<lparr>isOpen := False, failures := 0\<rparr> else s1)
      in sts1(provider \<mapsto> s2))"

definition CircuitBreaker_isOpen :: "int \<Rightarrow> string \<Rightarrow> states \<Rightarrow> bool \<times> states" where
  "CircuitBreaker_isOpen now provider sts =
     (let (s, sts1) = getState provider sts
      in if \<not> isOpen s then (False, sts1)
         else if now - lastFailure s > recoveryTimeout then (False, sts1)
         else (True, sts1))"

definition CircuitBreaker_reset :: "string \<Rightarrow> states \<Rightarrow> states" where
  "CircuitBreaker_reset provider sts = sts(provider := None)"

section \<open>Provider adapters\<close>

text \<open>
  What the network answers is an input of the model.  The four adapters built on
  \<^verbatim>\<open>fetch\<close> see either a rejected request (network failure, abort on timeout) or a response
  with its status and with what \<^verbatim>\<open>response.json()\<close> followed by the extraction of the first
  text candidate gives (an exception, or the text, \<^verbatim>\<open>''\<close> when the field is missing).  The
  Google adapter goes through the vendor's SDK, which either throws or returns the text.
\<close>

datatype http_result = Fetch_rejected js_error | Http_response nat "js_error + string"

record backend =
  sdk_result :: "js_error + string"
  fetch_result :: http_result

definition response_ok :: "nat \<Rightarrow> bool" where
  "response_ok status = (200 \<le> status \<and> status \<le> 299)"

definition fetch_adapter :: "string \<Rightarrow> http_result \<Rightarrow> js_error + string" where
  "fetch_adapter label r =
     (case r of
        Fetch_rejected e \<Rightarrow> Inl e
      | Http_response status body \<Rightarrow>
          if \<not> response_ok status then Inl (Error (label @ string_of_nat status))
          else body)"

section \<open>The LLM service\<close>

text \<open>
  \<^verbatim>\<open>LLMCache\<close> is a JavaScript \<^verbatim>\<open>Map\<close>, which keeps its keys in insertion order: an
  association list with distinct keys, the oldest key first.
\<close>

record entry =
  response :: string
  timestamp :: int

type_synonym llm_cache = "(string \<times> entry) list"

record LLMConfig =
  provider :: string
  model :: string

definition ttl :: int where
  "ttl = 300000"

definition maxSize :: nat where
  "maxSize = 100"

definition generateKey :: "string \<Rightarrow> LLMConfig \<Rightarrow> string" where
  "generateKey prompt config = provider config @ '':'' @ model config @ '':'' @ take 100 prompt"

definition LLMCache_get :: "int \<Rightarrow> string \<Rightarrow> LLMConfig \<Rightarrow> llm_cache \<Rightarrow> string option \<times> llm_cache" where
  "LLMCache_get now prompt config cache =
     (let key = generateKey prompt config
      in case map_of cache key of
           None \<Rightarrow> (None, cache)
         | Some e \<Rightarrow>
             if now - timestamp e > ttl then (None, AList.delete key cache)
             else (Some (response e), cache))"

definition LLMCache_set :: "int \<Rightarrow> string \<Rightarrow> LLMConfig \<Rightarrow> string \<Rightarrow> llm_cache \<Rightarrow> llm_cache" where
  "LLMCache_set now prompt config resp cache =
     (let cache1 =
            (if length cache \<ge> maxSize
             then (case cache of
                     [] \<Rightarrow> cache
                   | (oldestKey, _) # _ \<Rightarrow>
                       if oldestKey \<noteq> [] then AList.delete oldestKey cache else cache)
             else cache);
          key = generateKey prompt config
      in AList.update key \<lparr>response = resp, timestamp = now\<rparr> cache1)"

record LLMService =
  circuitBreaker :: states
  cache :: llm_cache

record LLMResponse =
  content :: string
  resp_provider :: string
  resp_model :: string
  latencyMs :: int
  cached :: bool

text \<open>The effects of one call that the claims speak about, in the order they happen.\<close>

datatype effect = Breaker_consulted | Network_call

text \<open>
  \<^verbatim>\<open>executeCall\<close>: the switch over the provider; an unknown provider throws without a
  request being made.  The error texts of this file have a colon after \<^verbatim>\<open>error\<close>.
\<close>

definition executeCall :: "LLMConfig \<Rightarrow> backend \<Rightarrow> (js_error + string) \<times> effect list" where
  "executeCall config net =
     (if provider config = ''google'' then (sdk_result net, [Network_call])
      else if provider config = ''openrouter''
        then (fetch_adapter ''OpenRouter error: '' (fetch_result net), [Network_call])
      else if provider config = ''openai''
        then (fetch_adapter ''OpenAI error: '' (fetch_result net), [Network_call])
      else if provider config = ''anthropic''
        then (fetch_adapter ''Anthropic error: '' (fetch_result net), [Network_call])
      else if provider config = ''groq''
        then (fetch_adapter ''Groq error: '' (fetch_result net), [Network_call])
      else (Inl (Error (''Unknown provider: '' @ provider config)), []))"

text \<open>
  \<^verbatim>\<open>LLMService.call\<close>.  \<open>clock k\<close> is what the \<open>k\<close>-th reading of \<^verbatim>\<open>Date.now()\<close> during the
  call returns.  The cached response is tested for truthiness, so an empty string counts as
  a miss.  The result is the returned response or the thrown error, the service's new state
  and the effects.
\<close>

definition LLMService_call ::
  "(nat \<Rightarrow> int) \<Rightarrow> string \<Rightarrow> string \<Rightarrow> LLMConfig \<Rightarrow> backend \<Rightarrow> LLMService
     \<Rightarrow> (js_error + LLMResponse) \<times> LLMService \<times> effect list" where
  "LLMService_call clock prompt systemPrompt config net svc =
     (let startTime = clock 0;
          (cachedResponse, cache1) = LLMCache_get (clock 1) prompt config (cache svc);
          svc1 = svc\<lparr>cache := cache1\<rparr>
      in if cachedResponse \<noteq> None \<and> cachedResponse \<noteq> Some []
         then (Inr \<lparr>content = the cachedResponse, resp_provider = provider config,
                     resp_model = model config, latencyMs = clock 2 - startTime,
                     cached = True\<rparr>, svc1, [])
         else
           let (opn, sts1) = CircuitBreaker_isOpen (clock 2) (provider config) (circuitBreaker svc1);
               svc2 = svc1\<lparr>circuitBreaker := sts1\<rparr>
           in if opn
              then (Inl (Error (''Circuit breaker OPEN for '' @ provider config)), svc2,
                    [Breaker_consulted])
              else
                (case executeCall config net of
                   (Inr resp, effs) \<Rightarrow>
                     (Inr \<lparr>content = resp, resp_provider = provider config,
                           resp_model = model config, latencyMs = clock 4 - startTime,
                           cached = False\<rparr>,
                      svc2\<lparr>circuitBreaker :=
                              CircuitBreaker_recordSuccess (provider config) sts1,
                            cache := LLMCache_set (clock 3) prompt config resp cache1\<rparr>,
                      Breaker_consulted # effs)
                 | (Inl e, effs) \<Rightarrow>
                     (Inl e,
                      svc2\<lparr>circuitBreaker :=
                              CircuitBreaker_recordFailure (clock 3) (provider config) sts1\<rparr>,
                      Breaker_consulted # effs)))"

section \<open>JSON values and the response healer\<close>

text \<open>
  The values \<^verbatim>\<open>JSON.parse\<close> returns.  An object keeps its members in the order of the text;
  where a key is repeated the last member is the property's value.
\<close>

datatype json =
  JNull
| JBool bool
| JNum rat
| JStr string
| JArr "json list"
| JObj "(string \<times> json) list"

text \<open>Truthiness of a value, as an \<^verbatim>\<open>if\<close> or \<^verbatim>\<open>&&\<close> tests it.\<close>

fun truthy :: "json \<Rightarrow> bool" where
  "truthy JNull = False"
| "truthy (JBool b) = b"
| "truthy (JNum n) = (n \<noteq> 0)"
| "truthy (JStr s) = (s \<noteq> [])"
| "truthy (JArr xs) = True"
| "truthy (JObj ms) = True"

text \<open>
  \<^verbatim>\<open>v.key\<close> for a key that no prototype defines: \<open>None\<close> is \<^verbatim>\<open>undefined\<close>.  On
  \<^verbatim>\<open>null\<close> the access throws a \<^verbatim>\<open>TypeError\<close>, which \<open>get_prop\<close> reports as \<open>Inl\<close>.
\<close>

definition own_prop :: "(string \<times> json) list \<Rightarrow> string \<Rightarrow> json option" where
  "own_prop ms key = map_of (rev ms) key"

definition get_prop :: "json \<Rightarrow> string \<Rightarrow> js_error + json option" where
  "get_prop v key =
     (case v of
        JNull \<Rightarrow> Inl (Error ''Cannot read properties of null'')
      | JObj ms \<Rightarrow> Inr (own_prop ms key)
      | _ \<Rightarrow> Inr None)"

text \<open>\<^verbatim>\<open>if (parsed.htmlContent)\<close> inside a \<^verbatim>\<open>try\<close>: the test passes.\<close>

definition has_htmlContent :: "json \<Rightarrow> bool" where
  "has_htmlContent parsed =
     (case get_prop parsed ''htmlContent'' of
        Inr (Some x) \<Rightarrow> truthy x
      | _ \<Rightarrow> False)"

record heal_result =
  success :: bool
  data :: "json option"
  error :: "string option"

text \<open>
  One \<^verbatim>\<open>try { const parsed = JSON.parse(t); if (parsed.htmlContent) return ... } catch {}\<close>
  block: \<open>Some parsed\<close> when the block returns.  \<^verbatim>\<open>JSON.parse\<close> is the platform's function
  and a parameter \<open>P\<close> of the model; \<open>None\<close> is its \<^verbatim>\<open>SyntaxError\<close>.
\<close>

definition try_parse :: "(string \<Rightarrow> json option) \<Rightarrow> string \<Rightarrow> json option" where
  "try_parse P t =
     (case P t of
        Some parsed \<Rightarrow> if has_htmlContent parsed then Some parsed else None
      | None \<Rightarrow> None)"

text \<open>
  The match of \<^verbatim>\<open>/```(?:json)?\s*([\s\S]*?)```/\<close>, as its first group.  The match starts at
  the first fence; the optional word and the white space are taken greedily, and the lazy
  group ends at the next fence.  Giving white space or the word back cannot produce a match
  that the greedy choice misses, nor can a later start, because no fence begins inside them.
\<close>

definition after_fence :: "string \<Rightarrow> string" where
  "after_fence s = dropWhile is_space (if prefix ''json'' s then drop 4 s else s)"

definition jsonBlockMatch :: "string \<Rightarrow> string option" where
  "jsonBlockMatch text =
     (case indexOf text ''```'' of
        None \<Rightarrow> None
      | Some i \<Rightarrow>
          (let body = after_fence (drop (i + 3) text)
           in case indexOf body ''```'' of
                None \<Rightarrow> None
              | Some j \<Rightarrow> Some (take j body)))"

text \<open>
  \<^verbatim>\<open>text.replace(/,(\s*[}\]])/g, '$1')\<close>: every comma that is followed by white space and
  a closing brace or bracket is dropped.
\<close>

definition closes_after_space :: "string \<Rightarrow> bool" where
  "closes_after_space s =
     (case dropWhile is_space s of
        [] \<Rightarrow> False
      | c # _ \<Rightarrow> c = CHR ''}'' \<or> c = CHR '']'')"

fun strip_trailing_commas :: "string \<Rightarrow> string" where
  "strip_trailing_commas [] = []"
| "strip_trailing_commas (c # cs) =
     (if c = CHR '','' \<and> closes_after_space cs then strip_trailing_commas cs
      else c # strip_trailing_commas cs)"

definition boundary_slice :: "string \<Rightarrow> string option" where
  "boundary_slice text =
     (case (indexOf text ''{'', lastIndexOf_char text (CHR ''}'')) of
        (Some firstBrace, Some lastBrace) \<Rightarrow>
          if lastBrace > firstBrace then Some (slice text firstBrace (lastBrace + 1)) else None
      | _ \<Rightarrow> None)"

definition closedText :: "string \<Rightarrow> string" where
  "closedText text =
     text @ replicate (count_char (CHR ''{'') text - count_char (CHR ''}'') text) (CHR ''}'')"

text \<open>\<^verbatim>\<open>healJSON\<close>, strategy by strategy, in the source's order.\<close>

definition healed :: "json \<Rightarrow> heal_result" where
  "healed parsed = \<lparr>success = True, data = Some parsed, error = None\<rparr>"

definition healJSON :: "(string \<Rightarrow> json option) \<Rightarrow> string \<Rightarrow> heal_result" where
  "healJSON P rawText =
     (if trim rawText = [] then \<lparr>success = False, data = None, error = Some ''Empty response''\<rparr>
      else
        let text = trim rawText
        in case try_parse P text of
             Some parsed \<Rightarrow> healed parsed
           | None \<Rightarrow>
        (case (case jsonBlockMatch text of
                 Some inner \<Rightarrow> try_parse P (trim inner)
               | None \<Rightarrow> None) of
             Some parsed \<Rightarrow> healed parsed
           | None \<Rightarrow>
        (case (case boundary_slice text of
                 Some inner \<Rightarrow> try_parse P inner
               | None \<Rightarrow> None) of
             Some parsed \<Rightarrow> healed parsed
           | None \<Rightarrow>
        (case try_parse P (strip_trailing_commas text) of
             Some parsed \<Rightarrow> healed parsed
           | None \<Rightarrow>
        (case (if count_char (CHR ''{'') text > count_char (CHR ''}'') text
               then try_parse P (closedText text) else None) of
             Some parsed \<Rightarrow> healed parsed
           | None \<Rightarrow>
               \<lparr>success = False, data = None, error = Some ''JSON parse failed''\<rparr>)))))"

text \<open>The texts that \<^verbatim>\<open>healJSON\<close> hands to \<^verbatim>\<open>JSON.parse\<close>, in the order it tries them.\<close>

definition candidates :: "string \<Rightarrow> string list" where
  "candidates text =
     [text]
     @ (case jsonBlockMatch text of Some inner \<Rightarrow> [trim inner] | None \<Rightarrow> [])
     @ (case boundary_slice text of Some inner \<Rightarrow> [inner] | None \<Rightarrow> [])
     @ [strip_trailing_commas text]
     @ (if count_char (CHR ''{'') text > count_char (CHR ''}'') text
        then [closedText text] else [])"

subsection \<open>A JSON parser\<close>

text \<open>
  The theorems about the healer hold for every function in the place of \<^verbatim>\<open>JSON.parse\<close>.
  To evaluate the code at concrete texts, \<open>JSON_parse\<close> below reads the JSON grammar (ECMA-404):
  white space, the three literals, numbers with fraction and exponent (as the rational
  number the literal denotes), strings with their escapes, arrays and objects.  An escape
  \<^verbatim>\<open>\uXXXX\<close> of a code unit outside the model's alphabet is refused.
  The recursion is bounded by a fuel that the length of the text covers.
\<close>

definition is_json_ws :: "char \<Rightarrow> bool" where
  "is_json_ws c = (c \<in> set [CHR 0x20, CHR 0x09, CHR 0x0A, CHR 0x0D])"

definition skip_ws :: "string \<Rightarrow> string" where
  "skip_ws s = dropWhile is_json_ws s"

definition is_digit :: "char \<Rightarrow> bool" where
  "is_digit c = (CHR ''0'' \<le> c \<and> c \<le> CHR ''9'')"

definition digit_val :: "char \<Rightarrow> nat" where
  "digit_val c = code c - 48"

definition digits_val :: "string \<Rightarrow> nat" where
  "digits_val ds = foldl (\<lambda>n c. 10 * n + digit_val c) 0 ds"

definition hex_val :: "char \<Rightarrow> nat option" where
  "hex_val c =
     (if is_digit c then Some (code c - 48)
      else if CHR ''a'' \<le> c \<and> c \<le> CHR ''f'' then Some (code c - 87)
      else if CHR ''A'' \<le> c \<and> c \<le> CHR ''F'' then Some (code c - 55)
      else None)"

definition unicode_escape :: "char \<Rightarrow> char \<Rightarrow> char \<Rightarrow> char \<Rightarrow> char option" where
  "unicode_escape h1 h2 h3 h4 =
     (case (hex_val h1, hex_val h2, hex_val h3, hex_val h4) of
        (Some a, Some b, Some c, Some d) \<Rightarrow>
          (let n = 4096 * a + 256 * b + 16 * c + d
           in if n = 0x130 then Some I_dot
              else if n = 0x307 then Some dot_above
              else if n < 256 \<and> n \<noteq> 0x80 \<and> n \<noteq> 0x81 then Some (char_of n)
              else None)
      | _ \<Rightarrow> None)"

definition simple_escape :: "char \<Rightarrow> char option" where
  "simple_escape e =
     (if e = CHR 0x22 then Some (CHR 0x22)
      else if e = CHR 0x5C then Some (CHR 0x5C)
      else if e = CHR ''/'' then Some (CHR ''/'')
      else if e = CHR ''b'' then Some (CHR 0x08)
      else if e = CHR ''f'' then Some (CHR 0x0C)
      else if e = CHR ''n'' then Some (CHR 0x0A)
      else if e = CHR ''r'' then Some (CHR 0x0D)
      else if e = CHR ''t'' then Some (CHR 0x09)
      else None)"

text \<open>The characters of a string after its opening quote, and the text after the closing one.\<close>

fun parse_chars :: "nat \<Rightarrow> string \<Rightarrow> string \<Rightarrow> (string \<times> string) option" where
  "parse_chars 0 s acc = None"
| "parse_chars (Suc n) [] acc = None"
| "parse_chars (Suc n) (c # cs) acc =
     (if c = CHR 0x22 then Some (rev acc, cs)
      else if c = CHR 0x5C then
        (case cs of
           [] \<Rightarrow> None
         | e # r \<Rightarrow>
             if e = CHR ''u'' then
               (case r of
                  h1 # h2 # h3 # h4 # r' \<Rightarrow>
                    (case unicode_escape h1 h2 h3 h4 of
                       Some u \<Rightarrow> parse_chars n r' (u # acc)
                     | None \<Rightarrow> None)
                | _ \<Rightarrow> None)
             else
               (case simple_escape e of
                  Some u \<Rightarrow> parse_chars n r (u # acc)
                | None \<Rightarrow> None))
      else if c < CHR 0x20 then None
      else parse_chars n cs (c # acc))"

definition parse_string :: "string \<Rightarrow> (string \<times> string) option" where
  "parse_string s = parse_chars (length s) s []"

text \<open>A number literal: sign, integer part without leading zeros, fraction, exponent.\<close>

definition parse_number :: "string \<Rightarrow> (rat \<times> string) option" where
  "parse_number s =
     (let neg = prefix ''-'' s;
          s1 = (if neg then drop 1 s else s);
          ip = takeWhile is_digit s1;
          s2 = dropWhile is_digit s1
      in if ip = [] \<or> (length ip > 1 \<and> hd ip = CHR ''0'') then None
         else
           let has_frac = prefix ''.'' s2;
               fp = (if has_frac then takeWhile is_digit (drop 1 s2) else []);
               s3 = (if has_frac then dropWhile is_digit (drop 1 s2) else s2)
           in if has_frac \<and> fp = [] then None
              else
                let has_exp = (prefix ''e'' s3 \<or> prefix ''E'' s3);
                    s4 = (if has_exp then drop 1 s3 else s3);
                    eneg = (has_exp \<and> prefix ''-'' s4);
                    s5 = (if has_exp \<and> (prefix ''-'' s4 \<or> prefix ''+'' s4) then drop 1 s4 else s4);
                    ep = (if has_exp then takeWhile is_digit s5 else []);
                    s6 = (if has_exp then dropWhile is_digit s5 else s3)
                in if has_exp \<and> ep = [] then None
                   else
                     let m = (of_nat (digits_val (ip @ fp)) :: rat) / 10 ^ length fp;
                         v = (if eneg then m / 10 ^ digits_val ep else m * 10 ^ digits_val ep)
                     in Some (if neg then - v else v, s6))"

fun parse_value :: "nat \<Rightarrow> string \<Rightarrow> (json \<times> string) option"
  and parse_elements :: "nat \<Rightarrow> string \<Rightarrow> (json list \<times> string) option"
  and parse_members :: "nat \<Rightarrow> string \<Rightarrow> ((string \<times> json) list \<times> string) option" where
  "parse_value 0 s = None"
| "parse_value (Suc n) [] = None"
| "parse_value (Suc n) (c # cs) =
     (if c = CHR ''{'' then
        (case skip_ws cs of
           [] \<Rightarrow> None
         | d # r \<Rightarrow>
             if d = CHR ''}'' then Some (JObj [], r)
             else (case parse_members n (d # r) of
                     Some (ms, r') \<Rightarrow> Some (JObj ms, r')
                   | None \<Rightarrow> None))
      else if c = CHR ''['' then
        (case skip_ws cs of
           [] \<Rightarrow> None
         | d # r \<Rightarrow>
             if d = CHR '']'' then Some (JArr [], r)
             else (case parse_elements n (d # r) of
                     Some (vs, r') \<Rightarrow> Some (JArr vs, r')
                   | None \<Rightarrow> None))
      else if c = CHR 0x22 then
        (case parse_string cs of
           Some (str, r) \<Rightarrow> Some (JStr str, r)
         | None \<Rightarrow> None)
      else if prefix ''true'' (c # cs) then Some (JBool True, drop 4 (c # cs))
      else if prefix ''false'' (c # cs) then Some (JBool False, drop 5 (c # cs))
      else if prefix ''null'' (c # cs) then Some (JNull, drop 4 (c # cs))
      else (case parse_number (c # cs) of
              Some (x, r) \<Rightarrow> Some (JNum x, r)
            | None \<Rightarrow> None))"
| "parse_elements 0 s = None"
| "parse_elements (Suc n) s =
     (case parse_value n s of
        None \<Rightarrow> None
      | Some (v, r) \<Rightarrow>
          (case skip_ws r of
             [] \<Rightarrow> None
           | d # r2 \<Rightarrow>
               if d = CHR '']'' then Some ([v], r2)
               else if d = CHR '','' then
                 (case parse_elements n (skip_ws r2) of
                    Some (vs, r3) \<Rightarrow> Some (v # vs, r3)
                  | None \<Rightarrow> None)
               else None))"
| "parse_members 0 s = None"
| "parse_members (Suc n) [] = None"
| "parse_members (Suc n) (c # cs) =
     (if c \<noteq> CHR 0x22 then None
      else
        (case parse_string cs of
           None \<Rightarrow> None
         | Some (k, r) \<Rightarrow>
             (case skip_ws r of
                [] \<Rightarrow> None
              | d # r2 \<Rightarrow>
                  if d \<noteq> CHR '':'' then None
                  else
                    (case parse_value n (skip_ws r2) of
                       None \<Rightarrow> None
                     | Some (v, r3) \<Rightarrow>
                         (case skip_ws r3 of
                            [] \<Rightarrow> None
                          | e # r4 \<Rightarrow>
                              if e = CHR ''}'' then Some ([(k, v)], r4)
                              else if e = CHR '','' then
                                (case parse_members n (skip_ws r4) of
                                   Some (ms, r5) \<Rightarrow> Some ((k, v) # ms, r5)
                                 | None \<Rightarrow> None)
                              else None)))))"

definition JSON_parse :: "string \<Rightarrow> json option" where
  "JSON_parse s =
     (case parse_value (2 * length s + 2) (skip_ws s) of
        Some (v, r) \<Rightarrow> if skip_ws r = [] then Some v else None
      | None \<Rightarrow> None)"

section \<open>Link injection in the orchestrator\<close>

text \<open>
  \<^verbatim>\<open>lib/ai-orchestrator.ts\<close>: \<^verbatim>\<open>findSemanticAnchor\<close> and \<^verbatim>\<open>injectInternalLinksDistributed\<close>.
  The records share their leading fields, as the interfaces of the source do.
\<close>

record linked =
  url :: string

record titled = linked +
  title :: string

record InternalLinkTarget = titled +
  slug :: string

record InternalLinkResult = linked +
  anchorText :: string
  relevanceScore :: rat
  position :: nat

definition MAX_TOTAL :: nat where
  "MAX_TOTAL = 15"

definition MAX_PER_SECTION :: nat where
  "MAX_PER_SECTION = 2"

definition MIN_WORDS_BETWEEN :: int where
  "MIN_WORDS_BETWEEN = 150"

subsection \<open>The anchor finder\<close>

definition stopWords :: "string list" where
  "stopWords =
     [''the'', ''a'', ''an'', ''and'', ''or'', ''but'', ''in'', ''on'', ''at'', ''to'', ''for'', ''of'',
      ''with'', ''by'', ''from'', ''is'', ''are'', ''was'', ''were'', ''be'', ''been'', ''have'',
      ''has'', ''had'', ''do'', ''does'', ''did'', ''will'', ''would'', ''could'', ''should'',
      ''may'', ''might'', ''must'', ''can'', ''need'', ''about'', ''after'', ''again'', ''all'',
      ''any'', ''because'', ''before'', ''between'', ''both'', ''during'', ''each'', ''few'',
      ''here'', ''how'', ''into'', ''its'', ''just'', ''more'', ''most'', ''no'', ''nor'', ''not'',
      ''now'', ''off'', ''once'', ''only'', ''other'', ''our'', ''out'', ''over'', ''own'', ''same'',
      ''so'', ''some'', ''such'', ''than'', ''that'', ''their'', ''them'', ''then'', ''there'',
      ''these'', ''they'', ''this'', ''those'', ''through'', ''too'', ''under'', ''until'', ''up'',
      ''very'', ''what'', ''when'', ''where'', ''which'', ''while'', ''who'', ''why'', ''your'',
      ''best'', ''top'', ''guide'', ''complete'', ''ultimate'', ''how'', ''way'', ''ways'',
      ''tips'', ''step'', ''steps'', ''make'', ''get'', ''use'', ''using'', ''new'', ''first'']"

text \<open>\<^verbatim>\<open>titleLower.replace(/[^a-z0-9\s]/g, ' ')\<close>\<close>

definition clean_title :: "string \<Rightarrow> string" where
  "clean_title s = map (\<lambda>c. if is_lower_alnum c \<or> is_space c then c else CHR '' '') s"

definition titleWords :: "string \<Rightarrow> string list" where
  "titleWords t =
     filter (\<lambda>w. length w \<ge> 3 \<and> w \<notin> set stopWords) (split_ws (clean_title (toLowerCase t)))"

text \<open>
  The phrases of strategy 1 in the order the two loops visit them: the length from
  \<open>min 4 n\<close> down to 2, the start from 0 to \<open>n - len\<close>.
\<close>

definition phrases :: "string list \<Rightarrow> string list" where
  "phrases ws =
     concat (map (\<lambda>len. map (\<lambda>start. join_sp (take len (drop start ws)))
                            [0..<Suc (length ws - len)])
                 (rev [2..<Suc (min 4 (length ws))]))"

text \<open>
  \<^verbatim>\<open>text.substring(idx, idx + n)\<close> where \<open>idx\<close> is the result of an \<^verbatim>\<open>indexOf\<close>: for
  \<open>-1\<close> the arguments are \<open>-1\<close> and \<open>n - 1\<close>, and \<^verbatim>\<open>substring\<close> reads a negative argument
  as 0.
\<close>

definition substring_at :: "string \<Rightarrow> nat option \<Rightarrow> nat \<Rightarrow> string" where
  "substring_at s idx n =
     (case idx of Some i \<Rightarrow> slice s i (i + n) | None \<Rightarrow> slice s 0 (n - 1))"

definition strategy1 :: "string \<Rightarrow> string list \<Rightarrow> string option" where
  "strategy1 s ws =
     (let textLower = toLowerCase s
      in case find (\<lambda>phrase. length phrase \<ge> 5 \<and> length phrase \<le> 40
                               \<and> js_includes textLower phrase) (phrases ws) of
           None \<Rightarrow> None
         | Some phrase \<Rightarrow> Some (substring_at s (indexOf textLower phrase) (length phrase)))"

text \<open>
  The group of \<^verbatim>\<open>/^\s*([a-zA-Z]{3,N})/\<close>: after the leading white space the first \<open>N\<close>
  letters of a run of at least three.  The group of \<^verbatim>\<open>/([a-zA-Z]{3,N})\s*$/\<close>: the last
  \<open>N\<close> letters of the run of at least three that ends where the trailing white space begins.
\<close>

definition letters_after :: "nat \<Rightarrow> string \<Rightarrow> string option" where
  "letters_after N s =
     (let run = takeWhile is_alpha (dropWhile is_space s)
      in if length run \<ge> 3 then Some (take N run) else None)"

definition letters_before :: "nat \<Rightarrow> string \<Rightarrow> string option" where
  "letters_before N s =
     (let run = rev (takeWhile is_alpha (dropWhile is_space (rev s)))
      in if length run \<ge> 3 then Some (drop (length run - N) run) else None)"

definition or_else :: "'a option \<Rightarrow> 'a option \<Rightarrow> 'a option" where
  "or_else a b = (case a of Some x \<Rightarrow> Some x | None \<Rightarrow> b)"

text \<open>One round of the loop of strategy 2 for a word found at \<open>wordIdx\<close>.\<close>

definition strategy2_word :: "string \<Rightarrow> string \<Rightarrow> nat \<Rightarrow> string option" where
  "strategy2_word s word wordIdx =
     (let actualWord = slice s wordIdx (wordIdx + length word);
          afterText = slice s (wordIdx + length word) (wordIdx + length word + 30);
          beforeText = slice s (wordIdx - 30) wordIdx
      in or_else
           (case letters_after 15 afterText of
              Some g \<Rightarrow>
                if toLowerCase g \<notin> set stopWords
                   \<and> length (actualWord @ '' '' @ g) \<ge> 8 \<and> length (actualWord @ '' '' @ g) \<le> 35
                then Some (actualWord @ '' '' @ g) else None
            | None \<Rightarrow> None)
           (or_else
              (case letters_before 15 beforeText of
                 Some g \<Rightarrow>
                   if toLowerCase g \<notin> set stopWords
                      \<and> length (g @ '' '' @ actualWord) \<ge> 8 \<and> length (g @ '' '' @ actualWord) \<le> 35
                   then Some (g @ '' '' @ actualWord) else None
               | None \<Rightarrow> None)
              (if length word \<ge> 7 then Some actualWord else None)))"

fun strategy2 :: "string \<Rightarrow> string list \<Rightarrow> string option" where
  "strategy2 s [] = None"
| "strategy2 s (word # importantWords) =
     (case indexOf (toLowerCase s) word of
        None \<Rightarrow> strategy2 s importantWords
      | Some wordIdx \<Rightarrow> or_else (strategy2_word s word wordIdx) (strategy2 s importantWords))"

definition strategy3_word :: "string \<Rightarrow> string \<Rightarrow> nat \<Rightarrow> string option" where
  "strategy3_word s word wordIdx =
     (let actualWord = slice s wordIdx (wordIdx + length word);
          afterText = slice s (wordIdx + length word) (wordIdx + length word + 25)
      in or_else
           (case letters_after 12 afterText of
              Some g \<Rightarrow> if toLowerCase g \<notin> set stopWords then Some (actualWord @ '' '' @ g) else None
            | None \<Rightarrow> None)
           (if length word \<ge> 6 then Some actualWord else None))"

fun strategy3 :: "string \<Rightarrow> string list \<Rightarrow> string option" where
  "strategy3 s [] = None"
| "strategy3 s (word # ws) =
     (if length word < 4 then strategy3 s ws
      else case indexOf (toLowerCase s) word of
             None \<Rightarrow> strategy3 s ws
           | Some wordIdx \<Rightarrow> or_else (strategy3_word s word wordIdx) (strategy3 s ws))"

definition slugWords :: "string \<Rightarrow> string list" where
  "slugWords sl =
     filter (\<lambda>w. length w \<ge> 4 \<and> w \<notin> set stopWords)
       (split_ws (map (\<lambda>c. if c = CHR ''-'' then CHR '' '' else c) sl))"

fun strategy4_words :: "string \<Rightarrow> string list \<Rightarrow> string option" where
  "strategy4_words s [] = None"
| "strategy4_words s (word # ws) =
     (case indexOf (toLowerCase s) word of
        Some wordIdx \<Rightarrow>
          if length word \<ge> 5 then Some (slice s wordIdx (wordIdx + length word))
          else strategy4_words s ws
      | None \<Rightarrow> strategy4_words s ws)"

definition strategy4 :: "string \<Rightarrow> string \<Rightarrow> string option" where
  "strategy4 s sl =
     (if sl \<noteq> [] \<and> length sl > 5 then strategy4_words s (slugWords sl) else None)"

definition findSemanticAnchor :: "string \<Rightarrow> InternalLinkTarget \<Rightarrow> string" where
  "findSemanticAnchor s target =
     (if s = [] \<or> title target = [] then []
      else
        let ws = titleWords (title target)
        in if ws = [] then []
           else case or_else (strategy1 s ws)
                      (or_else (strategy2 s (filter (\<lambda>w. length w \<ge> 5) ws))
                         (or_else (strategy3 s ws) (strategy4 s (slug target)))) of
                  Some anchor \<Rightarrow> anchor
                | None \<Rightarrow> [])"

subsection \<open>Sections and paragraphs\<close>

text \<open>
  \<^verbatim>\<open>html.split(/(<h2[^>]*>)/gi)\<close>: the texts between the opening tags, with the tags
  themselves (the group) in between.  A tag starts at \<^verbatim>\<open><h2\<close> when a \<^verbatim>\<open>>\<close> follows and ends
  at the first one.  \<open>intag\<close> says that the scan is within a tag.
\<close>

definition h2_open_at :: "string \<Rightarrow> bool" where
  "h2_open_at s = (prefix_ci ''<h2'' s \<and> CHR ''>'' \<in> set (drop 3 s))"

fun split_h2_aux :: "bool \<Rightarrow> string \<Rightarrow> string \<Rightarrow> string list" where
  "split_h2_aux intag [] acc = [rev acc]"
| "split_h2_aux intag (c # cs) acc =
     (if intag
      then (if c = CHR ''>'' then rev (c # acc) # split_h2_aux False cs []
            else split_h2_aux True cs (c # acc))
      else if h2_open_at (c # cs) then rev acc # split_h2_aux True cs [c]
      else split_h2_aux False cs (c # acc))"

definition split_h2 :: "string \<Rightarrow> string list" where
  "split_h2 s = split_h2_aux False s []"

text \<open>\<^verbatim>\<open>part.match(/<h2/i)\<close>\<close>

definition has_h2 :: "string \<Rightarrow> bool" where
  "has_h2 part = (indexOf_ci part ''<h2'' \<noteq> None)"

record html_paragraph =
  full :: string
  inner_text :: string
  plainText :: string
  pos :: nat

text \<open>
  A match of \<^verbatim>\<open>/<p[^>]*>([\s\S]{N,}?)<\/p>/gi\<close> at the head of \<open>s\<close>: the length of the match
  and its group.  The opening tag ends at the first \<^verbatim>\<open>>\<close>; the lazy group ends at the first
  \<^verbatim>\<open></p>\<close> that leaves it at least \<open>N\<close> characters.
\<close>

definition para_match :: "nat \<Rightarrow> string \<Rightarrow> (nat \<times> string) option" where
  "para_match N s =
     (if \<not> prefix_ci ''<p'' s then None
      else case indexOf (drop 2 s) ''>'' of
             None \<Rightarrow> None
           | Some k \<Rightarrow>
               (let body = drop (2 + k + 1) s
                in case indexOf_ci (drop N body) ''</p>'' of
                     None \<Rightarrow> None
                   | Some j \<Rightarrow> Some (2 + k + 1 + N + j + 4, take (N + j) body)))"

text \<open>
  The \<^verbatim>\<open>exec\<close> loop: the matches from left to right, each search starting where the last
  match ended.  \<open>skip\<close> counts the characters of the last match still to pass.
\<close>

fun paragraphs_aux :: "nat \<Rightarrow> nat \<Rightarrow> nat \<Rightarrow> string \<Rightarrow> html_paragraph list" where
  "paragraphs_aux N skip p [] = []"
| "paragraphs_aux N skip p (c # cs) =
     (if skip > 0 then paragraphs_aux N (skip - 1) (p + 1) cs
      else case para_match N (c # cs) of
             None \<Rightarrow> paragraphs_aux N 0 (p + 1) cs
           | Some (n, inner) \<Rightarrow>
               \<lparr>full = take n (c # cs), inner_text = inner,
                plainText = trim (collapse_ws (strip_tags inner)), pos = p\<rparr>
               # paragraphs_aux N (n - 1) (p + 1) cs)"

definition find_paragraphs :: "nat \<Rightarrow> string \<Rightarrow> html_paragraph list" where
  "find_paragraphs N part = paragraphs_aux N 0 0 part"

subsection \<open>Inserting a link\<close>

text \<open>
  The first match of \<^verbatim>\<open>new RegExp('\\b' + escapedAnchor + '\\b', 'i')\<close>: the anchor's
  characters, compared without case, between two word boundaries.  \<open>prev\<close> is the character
  before the position, if there is one.
\<close>

definition wordc :: "char option \<Rightarrow> bool" where
  "wordc c = (case c of None \<Rightarrow> False | Some x \<Rightarrow> is_word_char x)"

definition first_char :: "string \<Rightarrow> char option" where
  "first_char s = (case s of [] \<Rightarrow> None | c # _ \<Rightarrow> Some c)"

definition word_match_at :: "char option \<Rightarrow> string \<Rightarrow> string \<Rightarrow> bool" where
  "word_match_at prev s a =
     (prefix_ci a s
      \<and> wordc prev \<noteq> wordc (first_char s)
      \<and> wordc (if a = [] then prev else Some (last (take (length a) s)))
          \<noteq> wordc (first_char (drop (length a) s)))"

fun search_word_aux :: "char option \<Rightarrow> string \<Rightarrow> string \<Rightarrow> nat option" where
  "search_word_aux prev [] a = (if word_match_at prev [] a then Some 0 else None)"
| "search_word_aux prev (c # cs) a =
     (if word_match_at prev (c # cs) a then Some 0
      else map_option Suc (search_word_aux (Some c) cs a))"

definition search_word :: "string \<Rightarrow> string \<Rightarrow> nat option" where
  "search_word s a = search_word_aux None s a"

text \<open>
  \<^verbatim>\<open>(beforeMatch.match(/<(?![^>]*>)/g) || []).length\<close>: the \<^verbatim>\<open><\<close> characters with no
  \<^verbatim>\<open>>\<close> after them.
\<close>

fun openBrackets :: "string \<Rightarrow> nat" where
  "openBrackets [] = 0"
| "openBrackets (c # cs) =
     (if c = CHR ''<'' \<and> CHR ''>'' \<notin> set cs then Suc (openBrackets cs) else openBrackets cs)"

definition link_markup :: "InternalLinkTarget \<Rightarrow> string \<Rightarrow> string" where
  \<open>link_markup target anchor =
     ''<a href="'' @ escapeHtml (url target) @ ''" title="'' @ escapeHtml (title target)
     @ ''">'' @ anchor @ ''</a>''\<close>

text \<open>\<^verbatim>\<open>para.full.replace(simpleRegex, link)\<close> for a match at \<open>i\<close> of length \<open>n\<close>.\<close>

definition replace_at :: "string \<Rightarrow> nat \<Rightarrow> nat \<Rightarrow> string \<Rightarrow> string" where
  "replace_at s i n replacement =
     take i s
     @ expand_replacement replacement (slice s i (i + n)) (take i s) (drop (i + n) s)
     @ drop (i + n) s"

record link_list =
  linksAdded :: "InternalLinkResult list"

record inject_state = link_list +
  totalLinksAdded :: nat
  targetIndex :: nat
  lastLinkWordPos :: nat
  currentWordPos :: nat

record inject_result = link_list +
  html :: string
  totalLinks :: nat

text \<open>
  The body of \<^verbatim>\<open>if (anchorText && anchorText.length >= 4)\<close>: the section's link count,
  the section's text and the state after it.
\<close>

definition insert_link ::
  "InternalLinkTarget \<Rightarrow> html_paragraph \<Rightarrow> nat \<Rightarrow> string \<Rightarrow> nat \<times> string \<times> inject_state
     \<Rightarrow> nat \<times> string \<times> inject_state" where
  "insert_link target para paraWordPos anchor st =
     (case st of (sectionLinksAdded, processedPart, s) \<Rightarrow>
        (case search_word (full para) anchor of
           None \<Rightarrow> st
         | Some matchIndex \<Rightarrow>
             (let beforeMatch = take matchIndex (full para);
                  insideTag = (openBrackets beforeMatch > count_char (CHR ''>'') beforeMatch);
                  newPara = replace_at (full para) matchIndex (length anchor)
                              (link_markup target anchor)
              in if \<not> insideTag \<and> newPara \<noteq> full para
                 then (sectionLinksAdded + 1,
                       replace_first processedPart (full para) newPara,
                       s\<lparr>linksAdded := linksAdded s @
                            [\<lparr>url = url target, anchorText = anchor, relevanceScore = 4 / 5,
                              position = paraWordPos\<rparr>],
                         totalLinksAdded := totalLinksAdded s + 1,
                         lastLinkWordPos := paraWordPos\<rparr>)
                 else st)))"

text \<open>The loop over the paragraphs of one section, with its \<^verbatim>\<open>break\<close>s and \<^verbatim>\<open>continue\<close>.\<close>

fun para_loop ::
  "InternalLinkTarget list \<Rightarrow> string \<Rightarrow> html_paragraph list \<Rightarrow> nat \<times> string \<times> inject_state
     \<Rightarrow> nat \<times> string \<times> inject_state" where
  "para_loop availableTargets part [] st = st"
| "para_loop availableTargets part (para # paras) (sectionLinksAdded, processedPart, s) =
     (if sectionLinksAdded \<ge> MAX_PER_SECTION then (sectionLinksAdded, processedPart, s)
      else if totalLinksAdded s \<ge> MAX_TOTAL then (sectionLinksAdded, processedPart, s)
      else if targetIndex s \<ge> length availableTargets then (sectionLinksAdded, processedPart, s)
      else
        let paraWordPos = currentWordPos s + countWords (take (pos para) part)
        in if int paraWordPos - int (lastLinkWordPos s) < MIN_WORDS_BETWEEN \<and> linksAdded s \<noteq> []
           then para_loop availableTargets part paras (sectionLinksAdded, processedPart, s)
           else
             let target = availableTargets ! targetIndex s;
                 anchor = findSemanticAnchor (plainText para) target;
                 st1 = (if anchor \<noteq> [] \<and> length anchor \<ge> 4
                        then insert_link target para paraWordPos anchor
                               (sectionLinksAdded, processedPart, s)
                        else (sectionLinksAdded, processedPart, s))
             in case st1 of (sec1, pp1, s1) \<Rightarrow>
                  para_loop availableTargets part paras
                    (sec1, pp1, s1\<lparr>targetIndex := targetIndex s1 + 1\<rparr>))"

text \<open>\<^verbatim>\<open>parts.map((part, partIndex) => ...)\<close> with the counters it updates.\<close>

fun parts_loop ::
  "InternalLinkTarget list \<Rightarrow> nat \<Rightarrow> string list \<Rightarrow> inject_state \<Rightarrow> string list \<times> inject_state" where
  "parts_loop availableTargets partIndex [] s = ([], s)"
| "parts_loop availableTargets partIndex (part # parts) s =
     (if has_h2 part \<or> partIndex = 0
      then (case parts_loop availableTargets (partIndex + 1) parts
                   (s\<lparr>currentWordPos := currentWordPos s + countWords part\<rparr>) of
              (done, s') \<Rightarrow> (part # done, s'))
      else if totalLinksAdded s \<ge> MAX_TOTAL
      then (case parts_loop availableTargets (partIndex + 1) parts
                   (s\<lparr>currentWordPos := currentWordPos s + countWords part\<rparr>) of
              (done, s') \<Rightarrow> (part # done, s'))
      else
        (case para_loop availableTargets part (find_paragraphs 30 part) (0, part, s) of
           (sec, processedPart, s1) \<Rightarrow>
             (case parts_loop availableTargets (partIndex + 1) parts
                     (s1\<lparr>currentWordPos := currentWordPos s1 + countWords part\<rparr>) of
                (done, s') \<Rightarrow> (processedPart # done, s'))))"

definition usable_target :: "string \<Rightarrow> InternalLinkTarget \<Rightarrow> bool" where
  "usable_target currentUrl t =
     (url t \<noteq> [] \<and> title t \<noteq> [] \<and> \<not> (currentUrl \<noteq> [] \<and> url t = currentUrl))"

definition injectInternalLinksDistributed ::
  "string \<Rightarrow> InternalLinkTarget list \<Rightarrow> string \<Rightarrow> inject_result" where
  "injectInternalLinksDistributed h linkTargets currentUrl =
     (if h = [] \<or> linkTargets = [] then \<lparr>linksAdded = [], html = h, totalLinks = 0\<rparr>
      else
        let availableTargets = take 30 (filter (usable_target currentUrl) linkTargets)
        in if availableTargets = [] then \<lparr>linksAdded = [], html = h, totalLinks = 0\<rparr>
           else
             (case parts_loop availableTargets 0 (split_h2 h)
                     \<lparr>linksAdded = [], totalLinksAdded = 0, targetIndex = 0,
                      lastLinkWordPos = 0, currentWordPos = 0\<rparr> of
                (processedParts, s) \<Rightarrow>
                  \<lparr>linksAdded = linksAdded s, html = concat processedParts,
                   totalLinks = totalLinksAdded s\<rparr>))"

section \<open>The internal link engine\<close>

text \<open>
  \<^verbatim>\<open>lib/internal-links.ts\<close>: \<^verbatim>\<open>findContextualRichAnchor\<close> with the constants of its
  \<^verbatim>\<open>LINK_CONFIG\<close>.
\<close>

definition MIN_ANCHOR_WORDS :: nat where
  "MIN_ANCHOR_WORDS = 3"

definition MAX_ANCHOR_WORDS :: nat where
  "MAX_ANCHOR_WORDS = 7"

definition MIN_ANCHOR_CHARS :: nat where
  "MIN_ANCHOR_CHARS = 15"

definition MAX_ANCHOR_CHARS :: nat where
  "MAX_ANCHOR_CHARS = 60"

definition STOP_WORDS :: "string list" where
  "STOP_WORDS =
     [''the'', ''a'', ''an'', ''and'', ''or'', ''but'', ''in'', ''on'', ''at'', ''to'', ''for'', ''of'',
      ''with'', ''by'', ''from'', ''is'', ''are'', ''was'', ''were'', ''be'', ''been'', ''have'',
      ''has'', ''had'', ''do'', ''does'', ''did'', ''will'', ''would'', ''could'', ''should'',
      ''may'', ''might'', ''must'', ''can'', ''need'', ''about'', ''after'', ''again'', ''all'',
      ''any'', ''because'', ''before'', ''between'', ''both'', ''during'', ''each'', ''few'',
      ''here'', ''how'', ''into'', ''its'', ''just'', ''more'', ''most'', ''no'', ''nor'', ''not'',
      ''now'', ''off'', ''once'', ''only'', ''other'', ''our'', ''out'', ''over'', ''own'', ''same'',
      ''so'', ''some'', ''such'', ''than'', ''that'', ''their'', ''them'', ''then'', ''there'',
      ''these'', ''they'', ''this'', ''those'', ''through'', ''too'', ''under'', ''until'', ''up'',
      ''very'', ''what'', ''when'', ''where'', ''which'', ''while'', ''who'', ''why'', ''your'',
      ''i'', ''me'', ''my'', ''myself'', ''we'', ''us'', ''you'', ''he'', ''she'', ''it'', ''him'', ''her'']"

definition BAD_ANCHOR_WORDS :: "string list" where
  "BAD_ANCHOR_WORDS =
     [''click'', ''here'', ''read'', ''more'', ''learn'', ''visit'', ''check'', ''see'', ''go'',
      ''best'', ''top'', ''guide'', ''complete'', ''ultimate'', ''tips'', ''ways'', ''things'',
      ''stuff'', ''really'', ''actually'', ''basically'', ''literally'', ''definitely'']"

text \<open>
  \<^verbatim>\<open>s.split(/[.!?]+/)\<close> and its like: the pieces between the maximal runs of characters of
  a class, the empty pieces at either end included.
\<close>

fun split_runs_aux :: "(char \<Rightarrow> bool) \<Rightarrow> bool \<Rightarrow> string \<Rightarrow> string \<Rightarrow> string list" where
  "split_runs_aux sep gap [] cur = [rev cur]"
| "split_runs_aux sep gap (c # cs) cur =
     (if sep c
      then (if gap then split_runs_aux sep True cs cur
            else rev cur # split_runs_aux sep True cs [])
      else split_runs_aux sep False cs (c # cur))"

definition split_runs :: "(char \<Rightarrow> bool) \<Rightarrow> string \<Rightarrow> string list" where
  "split_runs sep s = split_runs_aux sep False s []"

text \<open>\<^verbatim>\<open>[...new Set(xs)]\<close>: the elements in the order of their first occurrence.\<close>

fun new_Set_aux :: "'a list \<Rightarrow> 'a list \<Rightarrow> 'a list" where
  "new_Set_aux seen [] = []"
| "new_Set_aux seen (x # xs) =
     (if x \<in> set seen then new_Set_aux seen xs else x # new_Set_aux (x # seen) xs)"

definition new_Set :: "'a list \<Rightarrow> 'a list" where
  "new_Set xs = new_Set_aux [] xs"

text \<open>The result of the first round of a loop that returns one, as \<^verbatim>\<open>for ... return\<close> does.\<close>

fun first_some :: "('a \<Rightarrow> 'b option) \<Rightarrow> 'a list \<Rightarrow> 'b option" where
  "first_some f [] = None"
| "first_some f (x # xs) = (case f x of Some y \<Rightarrow> Some y | None \<Rightarrow> first_some f xs)"

text \<open>The index of the first element with a property, as the loops with \<^verbatim>\<open>break\<close> find it.\<close>

fun first_index :: "('a \<Rightarrow> bool) \<Rightarrow> 'a list \<Rightarrow> nat option" where
  "first_index P [] = None"
| "first_index P (x # xs) = (if P x then Some 0 else map_option Suc (first_index P xs))"

text \<open>\<^verbatim>\<open>.replace(/^[^a-zA-Z0-9]+/, '').replace(/[^a-zA-Z0-9]+$/, '')\<close>\<close>

definition strip_edges :: "string \<Rightarrow> string" where
  "strip_edges s =
     rev (dropWhile (\<lambda>c. \<not> is_alnum c) (rev (dropWhile (\<lambda>c. \<not> is_alnum c) s)))"

definition titleKeywords :: "string \<Rightarrow> string list" where
  "titleKeywords t =
     filter (\<lambda>w. length w \<ge> 4 \<and> w \<notin> set STOP_WORDS \<and> w \<notin> set BAD_ANCHOR_WORDS)
       (split_ws (clean_title (toLowerCase t)))"

definition slugKeywords :: "string \<Rightarrow> string list" where
  "slugKeywords sl =
     (if sl = [] then []
      else filter (\<lambda>w. length w \<ge> 4 \<and> w \<notin> set STOP_WORDS)
             (split_ws (map (\<lambda>c. if c = CHR ''-'' then CHR '' '' else c) sl)))"

definition allKeywords :: "InternalLinkTarget \<Rightarrow> string list" where
  "allKeywords target = new_Set (titleKeywords (title target) @ slugKeywords (slug target))"

definition sentences :: "string \<Rightarrow> string list" where
  "sentences paragraphText =
     filter (\<lambda>s. length (trim s) > 20)
       (split_runs (\<lambda>c. c = CHR ''.'' \<or> c = CHR ''!'' \<or> c = CHR ''?'') paragraphText)"

text \<open>
  The body of the innermost loop of strategy 1: the phrase of \<open>phraseLen\<close> words that starts
  \<open>startOffset\<close> words before the keyword's word, if it passes every test.
\<close>

definition phrase_candidate ::
  "string \<Rightarrow> string list \<Rightarrow> nat \<Rightarrow> nat \<Rightarrow> nat \<Rightarrow> string option" where
  "phrase_candidate paragraphText words keywordWordIdx phraseLen startOffset =
     (let startIdx = keywordWordIdx - startOffset;
          endIdx = min (length words) (startIdx + phraseLen)
      in if endIdx - startIdx < 3 then None
         else
           let phrase = trim (join_sp (take (endIdx - startIdx) (drop startIdx words)));
               cleanPhrase = trim (strip_edges phrase)
           in if length cleanPhrase < MIN_ANCHOR_CHARS then None
              else if length cleanPhrase > MAX_ANCHOR_CHARS then None
              else
                let phraseWordCount = length (split_ws cleanPhrase)
                in if phraseWordCount < MIN_ANCHOR_WORDS then None
                   else if phraseWordCount > MAX_ANCHOR_WORDS then None
                   else
                     let firstWord = toLowerCase (hd (split_ws cleanPhrase));
                         lastWord = toLowerCase (last (split_ws cleanPhrase))
                     in if firstWord \<in> set STOP_WORDS \<or> lastWord \<in> set STOP_WORDS then None
                        else if firstWord \<in> set BAD_ANCHOR_WORDS \<or> lastWord \<in> set BAD_ANCHOR_WORDS
                        then None
                        else if js_includes paragraphText cleanPhrase
                                \<or> js_includes (toLowerCase paragraphText) (toLowerCase cleanPhrase)
                        then Some (substring_at paragraphText
                                     (indexOf (toLowerCase paragraphText) (toLowerCase cleanPhrase))
                                     (length cleanPhrase))
                        else None)"

text \<open>One sentence for one keyword in strategy 1, with its two \<^verbatim>\<open>continue\<close>s.\<close>

definition rich_strategy1_sentence :: "string \<Rightarrow> string \<Rightarrow> string \<Rightarrow> string option" where
  "rich_strategy1_sentence paragraphText keyword sentence =
     (let sentenceLower = toLowerCase sentence
      in case indexOf sentenceLower keyword of
           None \<Rightarrow> None
         | Some keywordIdx \<Rightarrow>
             (let words = split_ws (trim sentence);
                  wordsLower = split_ws (trim sentenceLower)
              in case first_index (\<lambda>w. js_includes w keyword) wordsLower of
                   None \<Rightarrow> None
                 | Some keywordWordIdx \<Rightarrow>
                     first_some
                       (\<lambda>phraseLen.
                          first_some (phrase_candidate paragraphText words keywordWordIdx phraseLen)
                            [0..<phraseLen])
                       [6, 5, 4, 3]))"

definition rich_strategy1 :: "string \<Rightarrow> string list \<Rightarrow> string option" where
  "rich_strategy1 paragraphText keywords =
     first_some
       (\<lambda>keyword. first_some (rich_strategy1_sentence paragraphText keyword)
                     (sentences paragraphText))
       keywords"

text \<open>The tests of strategy 2 and of strategy 3 on a phrase.\<close>

definition strategy2_accepts :: "string \<Rightarrow> bool" where
  "strategy2_accepts phrase =
     (length phrase \<ge> MIN_ANCHOR_CHARS \<and> length phrase \<le> MAX_ANCHOR_CHARS
      \<and> (let wordCount = length (split_ws phrase)
           in wordCount \<ge> 3 \<and> wordCount \<le> 7
              \<and> (let firstWord = toLowerCase (hd (split_ws phrase))
                   in firstWord \<notin> set STOP_WORDS \<and> firstWord \<notin> set BAD_ANCHOR_WORDS)))"

definition strategy3_accepts :: "string \<Rightarrow> bool" where
  "strategy3_accepts phrase =
     (length phrase \<ge> MIN_ANCHOR_CHARS \<and> length phrase \<le> MAX_ANCHOR_CHARS
      \<and> (let wordCount = length (split_ws phrase) in wordCount \<ge> 3 \<and> wordCount \<le> 7))"

text \<open>One keyword in strategy 2.\<close>

definition rich_strategy2_keyword :: "string \<Rightarrow> string \<Rightarrow> string option" where
  "rich_strategy2_keyword paragraphText keyword =
     (case indexOf (toLowerCase paragraphText) keyword of
        None \<Rightarrow> None
      | Some keywordIdx \<Rightarrow>
          (let contextStart = keywordIdx - 50;
               contextEnd = min (length paragraphText) (keywordIdx + length keyword + 50);
               contextWords = split_ws (slice paragraphText contextStart contextEnd)
           in case first_index (\<lambda>w. js_includes (toLowerCase w) keyword) contextWords of
                None \<Rightarrow> None
              | Some kwIdx \<Rightarrow>
                  (let phraseStart = kwIdx - 2;
                       phraseEnd = min (length contextWords) (kwIdx + 3);
                       phrase = trim (strip_edges (join_sp
                                  (take (phraseEnd - phraseStart) (drop phraseStart contextWords))))
                   in if strategy2_accepts phrase then Some phrase else None)))"

definition rich_strategy2 :: "string \<Rightarrow> string list \<Rightarrow> string option" where
  "rich_strategy2 paragraphText keywords =
     first_some (rich_strategy2_keyword paragraphText) keywords"

text \<open>The two \<^verbatim>\<open>while\<close> loops of strategy 3 that widen a range to the next spaces.\<close>

fun expand_start :: "string \<Rightarrow> nat \<Rightarrow> nat" where
  "expand_start paragraphText 0 = 0"
| "expand_start paragraphText (Suc n) =
     (if n < length paragraphText \<and> paragraphText ! n = CHR '' '' then Suc n
      else expand_start paragraphText n)"

definition expand_end :: "string \<Rightarrow> nat \<Rightarrow> nat" where
  "expand_end paragraphText e =
     e + length (takeWhile (\<lambda>c. c \<noteq> CHR '' '') (drop e paragraphText))"

text \<open>The pairs \<open>(xs[i], xs[j])\<close> with \<open>i < j\<close>, in the order of the two loops.\<close>

fun pairs :: "'a list \<Rightarrow> ('a \<times> 'a) list" where
  "pairs [] = []"
| "pairs (x # xs) = map (Pair x) xs @ pairs xs"

definition rich_strategy3_pair :: "string \<Rightarrow> string \<times> string \<Rightarrow> string option" where
  "rich_strategy3_pair paragraphText kws =
     (case kws of (kw1, kw2) \<Rightarrow>
        (case (indexOf (toLowerCase paragraphText) kw1, indexOf (toLowerCase paragraphText) kw2) of
           (Some idx1, Some idx2) \<Rightarrow>
             if (if idx1 \<le> idx2 then idx2 - idx1 else idx1 - idx2) > 60 then None
             else
               (let start = min idx1 idx2;
                    finish = max (idx1 + length kw1) (idx2 + length kw2);
                    phrase = strip_edges (trim (slice paragraphText
                               (expand_start paragraphText start) (expand_end paragraphText finish)))
                in if strategy3_accepts phrase then Some phrase else None)
         | _ \<Rightarrow> None))"

definition rich_strategy3 :: "string \<Rightarrow> string list \<Rightarrow> string option" where
  "rich_strategy3 paragraphText keywords =
     first_some (rich_strategy3_pair paragraphText) (pairs keywords)"

definition findContextualRichAnchor :: "string \<Rightarrow> InternalLinkTarget \<Rightarrow> string" where
  "findContextualRichAnchor paragraphText target =
     (if paragraphText = [] \<or> title target = [] then []
      else if titleKeywords (title target) = [] then []
      else
        case or_else (rich_strategy1 paragraphText (allKeywords target))
               (or_else (rich_strategy2 paragraphText (allKeywords target))
                  (rich_strategy3 paragraphText (allKeywords target))) of
          Some anchor \<Rightarrow> anchor
        | None \<Rightarrow> [])"

text \<open>The bounds of \<^verbatim>\<open>LINK_CONFIG\<close> on an anchor: 15 to 60 characters, 3 to 7 words.\<close>

definition meets_minimum :: "string \<Rightarrow> bool" where
  "meets_minimum a =
     (MIN_ANCHOR_CHARS \<le> length a \<and> length a \<le> MAX_ANCHOR_CHARS
      \<and> MIN_ANCHOR_WORDS \<le> length (split_ws a) \<and> length (split_ws a) \<le> MAX_ANCHOR_WORDS)"


section \<open>Reference discovery\<close>

text \<open>
  \<^verbatim>\<open>discoverReferences\<close> of \<^verbatim>\<open>lib/ai-orchestrator.ts\<close>.  What the search API answers to
  a query is an input of the model: the request fails, the status is not ok, the body cannot
  be read, or the body carries the list \<^verbatim>\<open>data.organic\<close> (empty when the field is missing)
  of results with their optional \<^verbatim>\<open>link\<close>, \<^verbatim>\<open>title\<close> and \<^verbatim>\<open>snippet\<close>.  A failed query is
  skipped.  Of a reference the model keeps the URL, the title, the snippet and the authority
  score; \<^verbatim>\<open>source\<close>, \<^verbatim>\<open>year\<close> and \<^verbatim>\<open>favicon\<close> are display texts computed from these and
  take no part in the selection.
\<close>

datatype organic = Organic (link: "string option") (result_title: "string option") (result_snippet: "string option")

datatype search_response = Fetch_failed | Not_ok | Body_unreadable | Results "organic list"

record snippeted = titled +
  snippet :: "string option"

record DiscoveredReference = snippeted +
  authorityScore :: int
















section \<open>The orchestrator\<close>

subsection \<open>Calling the provider\<close>

text \<open>
  \<^verbatim>\<open>callLLM\<close> of \<^verbatim>\<open>lib/ai-orchestrator.ts\<close>.  The switch over the provider is
  \<open>provider_call\<close>; the error texts of this file have no colon.  The test on the breaker
  stands before the \<^verbatim>\<open>try\<close>, so its error is not seen by the \<^verbatim>\<open>catch\<close>.  \<open>clock 0\<close> and
  \<open>clock 1\<close> are the two readings of \<^verbatim>\<open>Date.now()\<close>.
\<close>

definition provider_call :: "string \<Rightarrow> backend \<Rightarrow> js_error + string" where
  "provider_call p net =
     (if p = ''google'' then sdk_result net
      else if p = ''openrouter'' then fetch_adapter ''OpenRouter error '' (fetch_result net)
      else if p = ''openai'' then fetch_adapter ''OpenAI error '' (fetch_result net)
      else if p = ''anthropic'' then fetch_adapter ''Anthropic error '' (fetch_result net)
      else if p = ''groq'' then fetch_adapter ''Groq error '' (fetch_result net)
      else Inl (Error (''Unknown provider: '' @ p)))"

text \<open>
  \<^verbatim>\<open>error.message?.includes('401') || error.message?.includes('429') ||
  error.message?.includes('500')\<close>
\<close>

definition counts_for_breaker :: "js_error \<Rightarrow> bool" where
  "counts_for_breaker e =
     (case e of
        Error m \<Rightarrow> js_includes m ''401'' \<or> js_includes m ''429'' \<or> js_includes m ''500''
      | Thrown \<Rightarrow> False)"

definition callLLM ::
  "(nat \<Rightarrow> int) \<Rightarrow> string \<Rightarrow> backend \<Rightarrow> registry \<Rightarrow> (js_error + string) \<times> registry" where
  "callLLM clock p net reg =
     (case isCircuitOpen (clock 0) p reg of
        (True, reg1) \<Rightarrow> (Inl (Error (''Circuit breaker OPEN for '' @ p)), reg1)
      | (False, reg1) \<Rightarrow>
          (case provider_call p net of
             Inr resp \<Rightarrow> (Inr resp, recordSuccess p reg1)
           | Inl e \<Rightarrow>
               (Inl e, if counts_for_breaker e then recordFailure (clock 1) p reg1 else reg1)))"

subsection \<open>Discovery tasks and their join\<close>

text \<open>A settled promise, as \<^verbatim>\<open>Promise.allSettled\<close> reports it.\<close>

datatype 'a settled = Fulfilled 'a | Rejected js_error

record YouTubeVideoData =
  videoId :: string
  video_title :: string

record ValidatedReference = snippeted +
  isAuthority :: bool

record GenerateConfig = LLMConfig +
  topic :: string
  serper :: "string option"
  validatedReferences :: "ValidatedReference list"
  internalLinks :: "InternalLinkTarget list"

definition has_serper :: "GenerateConfig \<Rightarrow> bool" where
  "has_serper config = (case serper config of Some k \<Rightarrow> k \<noteq> [] | None \<Rightarrow> False)"

text \<open>
  \<^verbatim>\<open>youtubePromise\<close>: the video search when a search key is configured, else a promise
  resolved with \<^verbatim>\<open>null\<close>.  \<open>video_task\<close> is how \<^verbatim>\<open>searchYouTubeVideo\<close> settles.
\<close>

definition youtubePromise ::
  "GenerateConfig \<Rightarrow> YouTubeVideoData option settled \<Rightarrow> YouTubeVideoData option settled" where
  "youtubePromise config video_task = (if has_serper config then video_task else Fulfilled None)"

text \<open>
  \<^verbatim>\<open>referencesPromise\<close>: with a search key, five or more validated references are
  converted and used; otherwise \<^verbatim>\<open>discoverReferences\<close> is awaited inside a \<^verbatim>\<open>try\<close> whose
  \<^verbatim>\<open>catch\<close> returns the empty list.  \<open>reference_task\<close> is how \<^verbatim>\<open>discoverReferences\<close> settles.
\<close>

definition from_validated :: "ValidatedReference \<Rightarrow> DiscoveredReference" where
  "from_validated r =
     \<lparr>url = url r, title = title r, snippet = snippet r,
      authorityScore = (if isAuthority r then 90 else 70)\<rparr>"

definition referencesPromise ::
  "GenerateConfig \<Rightarrow> DiscoveredReference list settled \<Rightarrow> DiscoveredReference list settled" where
  "referencesPromise config reference_task =
     (if has_serper config
      then (if length (validatedReferences config) \<ge> 5
            then Fulfilled (map from_validated (validatedReferences config))
            else (case reference_task of
                    Fulfilled refs \<Rightarrow> Fulfilled refs
                  | Rejected e \<Rightarrow> Fulfilled []))
      else Fulfilled [])"

text \<open>
  The assignments after \<^verbatim>\<open>await Promise.allSettled([youtubePromise, referencesPromise])\<close>:
  a result is taken over only when its promise was fulfilled with a truthy value; the
  variables start as \<^verbatim>\<open>null\<close> and \<^verbatim>\<open>[]\<close>.
\<close>

definition joined_video :: "YouTubeVideoData option settled \<Rightarrow> YouTubeVideoData option" where
  "joined_video ytResult = (case ytResult of Fulfilled (Some v) \<Rightarrow> Some v | _ \<Rightarrow> None)"

definition joined_references :: "DiscoveredReference list settled \<Rightarrow> DiscoveredReference list" where
  "joined_references refResult = (case refResult of Fulfilled refs \<Rightarrow> refs | Rejected e \<Rightarrow> [])"

subsection \<open>One generation call\<close>

text \<open>
  Everything outside the program is gathered in a record: the platform's \<^verbatim>\<open>JSON.parse\<close>,
  what the backend answers on each attempt, the clock readings of each attempt, how the two
  discovery tasks settle, and the document assembly.  The assembly (steps 4 to 6 of
  \<^verbatim>\<open>generateSingleShot\<close>) concatenates the fixed visual components, whose texts lie outside
  the model's characters and one of which draws an identifier from the clock and the random
  generator, with the sections of the draft; it is taken as a function of the attempt, the
  configuration, the draft's HTML, the draft and the joined discovery results, and may throw.
\<close>

record world =
  parse :: "string \<Rightarrow> json option"
  answers :: "nat \<Rightarrow> backend"
  time_of :: "nat \<Rightarrow> nat \<Rightarrow> int"
  video_task :: "YouTubeVideoData option settled"
  reference_task :: "DiscoveredReference list settled"
  assemble :: "nat \<Rightarrow> GenerateConfig \<Rightarrow> string \<Rightarrow> json \<Rightarrow> YouTubeVideoData option
                 \<Rightarrow> DiscoveredReference list \<Rightarrow> js_error + string"

record ContentContract =
  raw :: json
  htmlContent :: string
  wordCount :: nat

record GenerationResult =
  contract :: ContentContract
  attempts :: nat
  totalTime :: int
  youtubeVideo :: "YouTubeVideoData option"
  references :: "DiscoveredReference list"

text \<open>
  The document of an attempt whose draft healed: the draft's \<^verbatim>\<open>htmlContent\<close> goes to
  \<^verbatim>\<open>removeAllH1Tags\<close>, which calls \<^verbatim>\<open>html.match\<close> and so throws a \<^verbatim>\<open>TypeError\<close> on a value
  that is not a string; the assembled document then receives the internal links when the
  configuration has any.
\<close>

definition final_document ::
  "world \<Rightarrow> GenerateConfig \<Rightarrow> nat \<Rightarrow> json \<Rightarrow> js_error + string" where
  "final_document w config attempt rawContract =
     (case get_prop rawContract ''htmlContent'' of
        Inr (Some (JStr mainContent)) \<Rightarrow>
          (case assemble w attempt config mainContent rawContract
                  (joined_video (youtubePromise config (video_task w)))
                  (joined_references (referencesPromise config (reference_task w))) of
             Inl e \<Rightarrow> Inl e
           | Inr assembledContent \<Rightarrow>
               if internalLinks config \<noteq> []
               then Inr (html (injectInternalLinksDistributed assembledContent
                                (internalLinks config) []))
               else Inr assembledContent)
      | _ \<Rightarrow> Inl (Error ''html.match is not a function''))"

text \<open>
  The body of the loop for one attempt: the result it returns, if it returns one, and the
  breaker registry after it.  Every exception inside is caught and only logged.
\<close>

definition run_attempt ::
  "world \<Rightarrow> GenerateConfig \<Rightarrow> nat \<Rightarrow> registry \<Rightarrow> GenerationResult option \<times> registry" where
  "run_attempt w config attempt reg =
     (case callLLM (time_of w attempt) (provider config) (answers w attempt) reg of
        (Inl e, reg1) \<Rightarrow> (None, reg1)
      | (Inr resp, reg1) \<Rightarrow>
          (let parsed = healJSON (parse w) resp
           in if success parsed \<and> (case data parsed of Some d \<Rightarrow> has_htmlContent d | None \<Rightarrow> False)
              then (case final_document w config attempt (the (data parsed)) of
                      Inl e \<Rightarrow> (None, reg1)
                    | Inr assembledContent \<Rightarrow>
                        if countWords assembledContent \<ge> 2000
                        then (Some \<lparr>contract = \<lparr>raw = the (data parsed),
                                                 htmlContent = assembledContent,
                                                 wordCount = countWords assembledContent\<rparr>,
                                     attempts = attempt,
                                     totalTime = time_of w attempt 2 - time_of w 0 0,
                                     youtubeVideo =
                                       joined_video (youtubePromise config (video_task w)),
                                     references =
                                       joined_references
                                         (referencesPromise config (reference_task w))\<rparr>,
                              reg1)
                        else (None, reg1))
              else (None, reg1)))"

text \<open>\<^verbatim>\<open>for (let attempt = 1; attempt <= 3; attempt++)\<close>, then the final \<^verbatim>\<open>throw\<close>.\<close>

fun attempt_loop ::
  "world \<Rightarrow> GenerateConfig \<Rightarrow> nat list \<Rightarrow> registry \<Rightarrow> (js_error + GenerationResult) \<times> registry" where
  "attempt_loop w config [] reg =
     (Inl (Error ''Content generation failed after 3 attempts''), reg)"
| "attempt_loop w config (attempt # later) reg =
     (case run_attempt w config attempt reg of
        (Some r, reg1) \<Rightarrow> (Inr r, reg1)
      | (None, reg1) \<Rightarrow> attempt_loop w config later reg1)"

definition generateSingleShot ::
  "world \<Rightarrow> GenerateConfig \<Rightarrow> registry \<Rightarrow> (js_error + GenerationResult) \<times> registry" where
  "generateSingleShot w config reg = attempt_loop w config [1, 2, 3] reg"

definition generate ::
  "world \<Rightarrow> GenerateConfig \<Rightarrow> registry \<Rightarrow> (js_error + GenerationResult) \<times> registry" where
  "generate w config reg = generateSingleShot w config reg"


text \<open>
  The failure count a breaker registry holds for a provider (0 when the provider has no
  breaker yet), for the orchestrator and for the LLM service.
\<close>

definition failure_count :: "registry \<Rightarrow> string \<Rightarrow> nat" where
  "failure_count reg p = (case reg p of Some b \<Rightarrow> failures b | None \<Rightarrow> 0)"

definition service_failure_count :: "LLMService \<Rightarrow> string \<Rightarrow> nat" where
  "service_failure_count svc p = (case circuitBreaker svc p of Some s \<Rightarrow> failures s | None \<Rightarrow> 0)"


section \<open>Concrete inputs\<close>

text \<open>The inputs at which the theorems below are instantiated and the code is evaluated.\<close>

definition at_time :: "int \<Rightarrow> nat \<Rightarrow> int" where
  "at_time t k = t"

definition new_service :: LLMService where
  "new_service = \<lparr>circuitBreaker = Map.empty, cache = []\<rparr>"

definition gpt4o :: LLMConfig where
  "gpt4o = \<lparr>provider = ''openai'', model = ''gpt-4o''\<rparr>"

definition long_prompt :: string where
  "long_prompt = replicate 100 (CHR ''a'')"

definition open_service :: LLMService where
  "open_service =
     \<lparr>circuitBreaker =
        [''openai'' \<mapsto> \<lparr>failures = 3, lastFailure = 1500, isOpen = True, successCount = 0\<rparr>],
      cache = [(''openai:gpt-4o:'' @ long_prompt,
                \<lparr>response = ''cached answer'', timestamp = 1000\<rparr>)]\<rparr>"

text \<open>The service after a first call whose provider answered with an empty text.\<close>

definition after_empty_answer :: LLMService where
  "after_empty_answer =
     fst (snd (LLMService_call (at_time 1000) ''hello'' ''system'' gpt4o
       \<lparr>sdk_result = Inl Thrown, fetch_result = Http_response 200 (Inr '''')\<rparr> new_service))"

definition truncated_draft :: string where
  \<open>truncated_draft = ''{"htmlContent":"<p>x</p>","meta":{"tags":["a"]''\<close>

definition fenced_answer :: string where
  \<open>fenced_answer = ''Here you go: ```json {"htmlContent":"<p>x</p>"} ``` done''\<close>

definition no_content :: string where
  \<open>no_content = ''{"title":"x"}''\<close>



text \<open>
  Worlds for the orchestrator: the provider answers every attempt with the same status and
  body, both discovery tasks reject, and the document is assembled either as the sanitised
  draft alone or as the draft behind a frame of 2000 words.
\<close>

definition frame_words :: string where
  "frame_words = concat (replicate 2000 ''x '')"

definition framed_assemble ::
  "nat \<Rightarrow> GenerateConfig \<Rightarrow> string \<Rightarrow> json \<Rightarrow> YouTubeVideoData option \<Rightarrow> DiscoveredReference list
     \<Rightarrow> js_error + string" where
  "framed_assemble attempt config mainContent rawContract video refs =
     Inr (frame_words @ mainContent)"

definition plain_assemble ::
  "nat \<Rightarrow> GenerateConfig \<Rightarrow> string \<Rightarrow> json \<Rightarrow> YouTubeVideoData option \<Rightarrow> DiscoveredReference list
     \<Rightarrow> js_error + string" where
  "plain_assemble attempt config mainContent rawContract video refs = Inr mainContent"

definition answering :: "nat \<Rightarrow> string \<Rightarrow> backend" where
  "answering status body =
     \<lparr>sdk_result = Inl Thrown, fetch_result = Http_response status (Inr body)\<rparr>"

definition world_of ::
  "string \<Rightarrow> (nat \<Rightarrow> GenerateConfig \<Rightarrow> string \<Rightarrow> json \<Rightarrow> YouTubeVideoData option
                \<Rightarrow> DiscoveredReference list \<Rightarrow> js_error + string) \<Rightarrow> world" where
  "world_of body asm =
     \<lparr>parse = JSON_parse, answers = (\<lambda>attempt. answering 200 body),
      time_of = (\<lambda>attempt k. 0),
      video_task = Rejected (Error ''network down''),
      reference_task = Rejected (Error ''network down''),
      assemble = asm\<rparr>"

definition widgets_draft :: string where
  \<open>widgets_draft = ''{"title":"Widgets","htmlContent":"<p>Widgets</p>"}''\<close>


definition demo_config :: GenerateConfig where
  "demo_config =
     \<lparr>provider = ''openai'', model = ''gpt-4o'', topic = ''widgets'', serper = Some ''key'',
      validatedReferences = [], internalLinks = []\<rparr>"

definition garbage_draft :: string where
  "garbage_draft = ''Sorry, I cannot do that.''"


text \<open>Link targets and paragraphs: a target with a usable title, one whose title has
  only stop words, a paragraph about the first target and one about neither.\<close>

definition t_widgets :: InternalLinkTarget where
  "t_widgets =
     \<lparr>url = ''/widgets'', title = ''Widget Management Basics'', slug = ''widget-management-basics''\<rparr>"

definition t_stop :: InternalLinkTarget where
  "t_stop = \<lparr>url = ''/how'', title = ''How to do this and that'', slug = ''''\<rparr>"

definition widget_paragraph :: string where
  "widget_paragraph =
     ''Good teams invest in widget management tools for every plant. Then they rest.''"

definition other_paragraph :: string where
  "other_paragraph = ''Nothing of interest is written in this paragraph today.''"

text \<open>
  Texts with \<^verbatim>\<open>U+0130\<close>: three of them before the word \<^verbatim>\<open>widget\<close>, and the sentence
  \<^verbatim>\<open>In Istanbul we buy old widget kits\<close> with both capitals dotted.
\<close>

definition t_widget :: InternalLinkTarget where
  "t_widget = \<lparr>url = ''/widget'', title = ''Widget'', slug = []\<rparr>"

definition dotted_text :: string where
  "dotted_text = [I_dot, I_dot, I_dot] @ '' widget''"

definition dotted_paragraph :: string where
  "dotted_paragraph = [I_dot] @ ''n '' @ [I_dot] @ ''stanbul we buy old widget kits''"


text \<open>
  A document with one section of three paragraphs: two that mention widget management and,
  between them, one of 150 words.
\<close>

definition filler :: "nat \<Rightarrow> string" where
  "filler n = concat (replicate n ''x '')"

definition two_widget_sections :: string where
  "two_widget_sections =
     ''<h2>A</h2><p>Good widget management keeps the shop running well.</p><p>'' @ filler 150
     @ ''</p><p>Careful widget management also saves money.</p>''"

section \<open>Properties of the circuit breakers\<close>

lemma getCircuitBreaker_fst:
  "fst (getCircuitBreaker p reg) =
     (case reg p of None \<Rightarrow> \<lparr>failures = 0, lastFailure = 0, isOpen = False\<rparr> | Some b \<Rightarrow> b)"
  by (simp add: getCircuitBreaker_def Let_def split: option.splits)

lemma recordFailure_at:
  "recordFailure now p reg p =
     Some (let b = fst (getCircuitBreaker p reg)
           in \<lparr>failures = failures b + 1, lastFailure = now,
               isOpen = (isOpen b \<or> failures b + 1 \<ge> 3)\<rparr>)"
  by (simp add: recordFailure_def getCircuitBreaker_def Let_def split: option.splits)

lemma recordFailure_other:
  "q \<noteq> p \<Longrightarrow> recordFailure now p reg q = reg q"
  by (simp add: recordFailure_def getCircuitBreaker_def Let_def split: option.splits)

lemma recordSuccess_at:
  "recordSuccess p reg p =
     Some (let b = fst (getCircuitBreaker p reg)
           in \<lparr>failures = 0, lastFailure = lastFailure b, isOpen = False\<rparr>)"
  by (simp add: recordSuccess_def getCircuitBreaker_def Let_def split: option.splits)

lemma isCircuitOpen_fst:
  "fst (isCircuitOpen now p reg) =
     (let b = fst (getCircuitBreaker p reg) in isOpen b \<and> \<not> now - lastFailure b > 60000)"
  by (simp add: isCircuitOpen_def getCircuitBreaker_def Let_def split: option.splits)

lemma isCircuitOpen_snd:
  "snd (isCircuitOpen now p reg) = snd (getCircuitBreaker p reg)"
  by (simp add: isCircuitOpen_def Let_def split: prod.splits)

lemma getState_fst:
  "fst (getState p sts) =
     (case sts p of
        None \<Rightarrow> \<lparr>failures = 0, lastFailure = 0, isOpen = False, successCount = 0\<rparr>
      | Some s \<Rightarrow> s)"
  by (simp add: getState_def Let_def split: option.splits)

lemma CircuitBreaker_recordFailure_at:
  "CircuitBreaker_recordFailure now p sts p =
     Some (let s = fst (getState p sts)
           in \<lparr>failures = failures s + 1, lastFailure = now,
               isOpen = (isOpen s \<or> failures s + 1 \<ge> 3), successCount = 0\<rparr>)"
  by (simp add: CircuitBreaker_recordFailure_def getState_def failureThreshold_def Let_def
      split: option.splits)

lemma CircuitBreaker_recordSuccess_at:
  "CircuitBreaker_recordSuccess p sts p =
     Some (let s = fst (getState p sts)
           in if isOpen s \<and> successCount s + 1 \<ge> 2
              then \<lparr>failures = 0, lastFailure = lastFailure s, isOpen = False,
                    successCount = successCount s + 1\<rparr>
              else \<lparr>failures = failures s, lastFailure = lastFailure s, isOpen = isOpen s,
                    successCount = successCount s + 1\<rparr>)"
  by (simp add: CircuitBreaker_recordSuccess_def getState_def halfOpenSuccessThreshold_def
      Let_def split: option.splits)

lemma CircuitBreaker_isOpen_fst:
  "fst (CircuitBreaker_isOpen now p sts) =
     (let s = fst (getState p sts) in isOpen s \<and> \<not> now - lastFailure s > 60000)"
  by (simp add: CircuitBreaker_isOpen_def getState_def recoveryTimeout_def Let_def
      split: option.splits)

text \<open>
  Claim C2, as the code has it.  In both breakers two recorded failures leave a fresh
  breaker closed, and three recorded failures in a row open it: \<open>isOpen\<close> answers true as
  long as no more than 60000 ms have passed since the last failure, and false once more than
  60000 ms have passed, although the stored flag is still set.  In the orchestrator one
  recorded success sets the failure count to 0 and closes the circuit.  In the LLM service a
  recorded success only increments \<open>successCount\<close>: the first success on an open breaker
  leaves the flag and the failure count as they are, and the second one
  (\<open>halfOpenSuccessThreshold = 2\<close>) closes the circuit and resets the failure count.
\<close>

theorem circuit_breaker_state_machine:
  "(reg p = None \<longrightarrow>
      \<not> fst (isCircuitOpen now p (recordFailure t2 p (recordFailure t1 p reg))))
   \<and> (now - t3 \<le> 60000 \<longrightarrow>
      fst (isCircuitOpen now p
        (recordFailure t3 p (recordFailure t2 p (recordFailure t1 p reg)))))
   \<and> (now - t3 > 60000 \<longrightarrow>
      \<not> fst (isCircuitOpen now p
        (recordFailure t3 p (recordFailure t2 p (recordFailure t1 p reg)))))
   \<and> (\<exists>b. recordSuccess p reg p = Some b \<and> failures b = 0 \<and> \<not> isOpen b)
   \<and> \<not> fst (isCircuitOpen now p (recordSuccess p reg))
   \<and> (sts p = None \<longrightarrow>
      \<not> fst (CircuitBreaker_isOpen now p
        (CircuitBreaker_recordFailure t2 p (CircuitBreaker_recordFailure t1 p sts))))
   \<and> (now - t3 \<le> 60000 \<longrightarrow>
      fst (CircuitBreaker_isOpen now p
        (CircuitBreaker_recordFailure t3 p
          (CircuitBreaker_recordFailure t2 p (CircuitBreaker_recordFailure t1 p sts)))))
   \<and> (now - t3 > 60000 \<longrightarrow>
      \<not> fst (CircuitBreaker_isOpen now p
        (CircuitBreaker_recordFailure t3 p
          (CircuitBreaker_recordFailure t2 p (CircuitBreaker_recordFailure t1 p sts)))))
   \<and> (sts p = Some s \<longrightarrow> isOpen s \<longrightarrow> successCount s = 0 \<longrightarrow>
      CircuitBreaker_recordSuccess p sts p = Some (s\<lparr>successCount := 1\<rparr>)
      \<and> CircuitBreaker_recordSuccess p (CircuitBreaker_recordSuccess p sts) p =
          Some (s\<lparr>successCount := 2, isOpen := False, failures := 0\<rparr>))"
  by (simp add: isCircuitOpen_fst getCircuitBreaker_fst recordFailure_at recordSuccess_at
      CircuitBreaker_isOpen_fst getState_fst CircuitBreaker_recordFailure_at
      CircuitBreaker_recordSuccess_at Let_def split: option.splits)

theorem circuit_breaker_state_machine_witness:
  "\<not> fst (isCircuitOpen 3500 ''openai''
        (recordFailure 2000 ''openai'' (recordFailure 1000 ''openai'' Map.empty)))
   \<and> fst (isCircuitOpen 3500 ''openai''
        (recordFailure 3000 ''openai''
          (recordFailure 2000 ''openai'' (recordFailure 1000 ''openai'' Map.empty))))
   \<and> \<not> fst (isCircuitOpen 63001 ''openai''
        (recordFailure 3000 ''openai''
          (recordFailure 2000 ''openai'' (recordFailure 1000 ''openai'' Map.empty))))
   \<and> fst (CircuitBreaker_isOpen 3500 ''openai''
        (CircuitBreaker_recordFailure 3000 ''openai''
          (CircuitBreaker_recordFailure 2000 ''openai''
            (CircuitBreaker_recordFailure 1000 ''openai'' Map.empty))))
   \<and> \<not> fst (CircuitBreaker_isOpen 63001 ''openai''
        (CircuitBreaker_recordFailure 3000 ''openai''
          (CircuitBreaker_recordFailure 2000 ''openai''
            (CircuitBreaker_recordFailure 1000 ''openai'' Map.empty))))
   \<and> CircuitBreaker_recordSuccess ''openai''
        (CircuitBreaker_recordSuccess ''openai''
          [''openai'' \<mapsto> \<lparr>failures = 3, lastFailure = 3000, isOpen = True, successCount = 0\<rparr>])
        ''openai''
       = Some \<lparr>failures = 0, lastFailure = 3000, isOpen = False, successCount = 2\<rparr>"
  using circuit_breaker_state_machine [of "Map.empty" "''openai''" 3500 2000 1000 3000
      "Map.empty"]
    circuit_breaker_state_machine [of "Map.empty" "''openai''" 63001 2000 1000 3000
      "Map.empty"]
    circuit_breaker_state_machine [of "Map.empty" "''openai''" 0 0 0 0
      "[''openai'' \<mapsto> \<lparr>failures = 3, lastFailure = 3000, isOpen = True, successCount = 0\<rparr>]"
      "\<lparr>failures = 3, lastFailure = 3000, isOpen = True, successCount = 0\<rparr>"]
  by simp

text \<open>
  The claim as stated fails on the LLM service's breaker: after three failures one recorded
  success leaves the failure count at 3 and the circuit open.
\<close>

theorem circuit_breaker_single_success_counterexample:
  "CircuitBreaker_recordSuccess ''openai''
     (CircuitBreaker_recordFailure 3000 ''openai''
       (CircuitBreaker_recordFailure 2000 ''openai''
         (CircuitBreaker_recordFailure 1000 ''openai'' Map.empty))) ''openai''
     = Some \<lparr>failures = 3, lastFailure = 3000, isOpen = True, successCount = 1\<rparr>
   \<and> fst (CircuitBreaker_isOpen 4000 ''openai''
       (CircuitBreaker_recordSuccess ''openai''
         (CircuitBreaker_recordFailure 3000 ''openai''
           (CircuitBreaker_recordFailure 2000 ''openai''
             (CircuitBreaker_recordFailure 1000 ''openai'' Map.empty)))))"
  by (simp add: CircuitBreaker_isOpen_fst getState_fst CircuitBreaker_recordFailure_at
      CircuitBreaker_recordSuccess_at Let_def)

section \<open>Properties of the response cache\<close>

lemma LLMCache_get_fresh:
  "map_of c (generateKey prompt config) = Some e \<Longrightarrow> now - timestamp e \<le> ttl \<Longrightarrow>
   LLMCache_get now prompt config c = (Some (response e), c)"
  by (simp add: LLMCache_get_def Let_def)

lemma generateKey_take:
  "take 100 prompt' = take 100 prompt \<Longrightarrow>
   generateKey prompt' config = generateKey prompt config"
  by (simp add: generateKey_def)

text \<open>
  Claim C10, as the code has it.  When the cache holds an entry for the key of (provider,
  model, first 100 characters of the prompt) that is at most 300000 ms old and whose response
  is not the empty string, \<^verbatim>\<open>LLMService.call\<close> returns that response with \<open>cached = True\<close>,
  leaves the service as it was, consults no circuit breaker and makes no network call,
  whatever the breaker's state; a second prompt with the same first 100 characters (and any
  system prompt) gets the same response.
\<close>

theorem cache_hit_served:
  assumes "map_of (cache svc) (generateKey prompt config) = Some e"
    and "clock 1 - timestamp e \<le> ttl"
    and "response e \<noteq> []"
    and "take 100 prompt' = take 100 prompt"
  shows "LLMService_call clock prompt systemPrompt config net svc =
           (Inr \<lparr>content = response e, resp_provider = provider config,
                 resp_model = model config, latencyMs = clock 2 - clock 0, cached = True\<rparr>,
            svc, [])
         \<and> LLMService_call clock prompt' systemPrompt' config net' svc =
           (Inr \<lparr>content = response e, resp_provider = provider config,
                 resp_model = model config, latencyMs = clock 2 - clock 0, cached = True\<rparr>,
            svc, [])"
proof -
  have k: "generateKey prompt' config = generateKey prompt config"
    using assms(4) by (rule generateKey_take)
  have g: "LLMCache_get (clock 1) prompt config (cache svc) = (Some (response e), cache svc)"
    using assms(1,2) by (rule LLMCache_get_fresh)
  have g': "LLMCache_get (clock 1) prompt' config (cache svc) = (Some (response e), cache svc)"
    using assms(1,2) k by (simp add: LLMCache_get_fresh)
  show ?thesis
    unfolding LLMService_call_def g g' using assms(3) by simp
qed

text \<open>
  The witness: the breaker of \<open>openai\<close> is open and the network would fail; a prompt of
  more than 100 characters, and another prompt that shares its first 100 characters, are both
  served from the cache.
\<close>

theorem cache_hit_served_witness:
  "fst (CircuitBreaker_isOpen 2000 ''openai'' (circuitBreaker open_service))
   \<and> LLMService_call (at_time 2000) (long_prompt @ '' first question'') ''system'' gpt4o
       \<lparr>sdk_result = Inl Thrown, fetch_result = Fetch_rejected Thrown\<rparr> open_service
     = (Inr \<lparr>content = ''cached answer'', resp_provider = ''openai'', resp_model = ''gpt-4o'',
             latencyMs = 0, cached = True\<rparr>, open_service, [])
   \<and> LLMService_call (at_time 2000) (long_prompt @ '' second question'') ''other'' gpt4o
       \<lparr>sdk_result = Inl Thrown, fetch_result = Fetch_rejected Thrown\<rparr> open_service
     = (Inr \<lparr>content = ''cached answer'', resp_provider = ''openai'', resp_model = ''gpt-4o'',
             latencyMs = 0, cached = True\<rparr>, open_service, [])"
  using cache_hit_served [of open_service "long_prompt @ '' first question''" gpt4o
      "\<lparr>response = ''cached answer'', timestamp = 1000\<rparr>" "at_time 2000"
      "long_prompt @ '' second question''"
      "''system''" "\<lparr>sdk_result = Inl Thrown, fetch_result = Fetch_rejected Thrown\<rparr>"
      "''other''" "\<lparr>sdk_result = Inl Thrown, fetch_result = Fetch_rejected Thrown\<rparr>"]
  by (simp add: open_service_def gpt4o_def generateKey_def at_time_def ttl_def long_prompt_def
      CircuitBreaker_isOpen_def getState_def recoveryTimeout_def)

lemma after_empty_answer_cache:
  "cache after_empty_answer =
     [(''openai:gpt-4o:hello'', \<lparr>response = '''', timestamp = 1000\<rparr>)]"
  by (simp add: after_empty_answer_def new_service_def gpt4o_def LLMService_call_def
      LLMCache_get_def LLMCache_set_def generateKey_def at_time_def maxSize_def
      CircuitBreaker_isOpen_def getState_def executeCall_def fetch_adapter_def response_ok_def
      Let_def)

text \<open>
  The claim as stated fails when the fresh entry holds the empty string, which a provider's
  empty answer puts there: \<^verbatim>\<open>cache.get\<close> finds the entry, the truthiness test rejects it,
  and the call goes on to the breaker and the network and returns \<open>cached = False\<close>.
\<close>

theorem cache_empty_entry_counterexample:
  "fst (LLMCache_get 2000 ''hello'' gpt4o (cache after_empty_answer)) = Some ''''
   \<and> fst (LLMService_call (at_time 2000) ''hello'' ''system'' gpt4o
       \<lparr>sdk_result = Inl Thrown, fetch_result = Http_response 200 (Inr ''fresh answer'')\<rparr>
       after_empty_answer)
     = Inr \<lparr>content = ''fresh answer'', resp_provider = ''openai'', resp_model = ''gpt-4o'',
            latencyMs = 0, cached = False\<rparr>
   \<and> snd (snd (LLMService_call (at_time 2000) ''hello'' ''system'' gpt4o
       \<lparr>sdk_result = Inl Thrown, fetch_result = Http_response 200 (Inr ''fresh answer'')\<rparr>
       after_empty_answer)) = [Breaker_consulted, Network_call]"
  apply (simp add: LLMService_call_def after_empty_answer_cache LLMCache_get_def generateKey_def
      gpt4o_def at_time_def ttl_def Let_def executeCall_def fetch_adapter_def response_ok_def
      split: prod.splits)
  apply (simp add: after_empty_answer_def new_service_def gpt4o_def LLMService_call_def
      LLMCache_get_def generateKey_def at_time_def
      CircuitBreaker_isOpen_def getState_def executeCall_def fetch_adapter_def response_ok_def
      CircuitBreaker_recordSuccess_def halfOpenSuccessThreshold_def
      Let_def)
  done

section \<open>Properties of the response healer\<close>

lemma has_htmlContent_iff:
  "has_htmlContent parsed \<longleftrightarrow>
     (\<exists>ms x. parsed = JObj ms \<and> own_prop ms ''htmlContent'' = Some x \<and> truthy x)"
  by (cases parsed) (auto simp: has_htmlContent_def get_prop_def split: option.splits)

lemma try_parse_Some:
  "try_parse P t = Some parsed \<longleftrightarrow> P t = Some parsed \<and> has_htmlContent parsed"
  by (auto simp: try_parse_def split: option.splits)

lemma try_parse_None:
  "try_parse P t = None \<longleftrightarrow> (\<forall>parsed. P t = Some parsed \<longrightarrow> \<not> has_htmlContent parsed)"
  by (auto simp: try_parse_def split: option.splits)

lemma healJSON_cases:
  "healJSON P rawText =
     (if trim rawText = []
      then \<lparr>success = False, data = None, error = Some ''Empty response''\<rparr>
      else case List.find (\<lambda>t. try_parse P t \<noteq> None) (candidates (trim rawText)) of
             Some t \<Rightarrow> healed (the (try_parse P t))
           | None \<Rightarrow> \<lparr>success = False, data = None, error = Some ''JSON parse failed''\<rparr>)"
  by (auto simp: healJSON_def candidates_def Let_def split: option.splits)

text \<open>
  Claim C7.  Whatever \<^verbatim>\<open>JSON.parse\<close> does and whatever the input is: \<^verbatim>\<open>healJSON\<close> returns
  success exactly when the trimmed input is not empty and one of the texts it tries parses
  to a value with a truthy \<^verbatim>\<open>htmlContent\<close>; a success carries such an object (one of the
  parses, with the field at its top level) and no error; every other result is the failure
  record with \<open>success = False\<close>, no data and one of the two error reasons.
\<close>

theorem healJSON_success_only_with_content:
  "(success (healJSON P rawText) \<longleftrightarrow>
      trim rawText \<noteq> [] \<and>
      (\<exists>t \<in> set (candidates (trim rawText)).
         \<exists>parsed. P t = Some parsed \<and> has_htmlContent parsed))
   \<and> (success (healJSON P rawText) \<longrightarrow>
      error (healJSON P rawText) = None \<and>
      (\<exists>t \<in> set (candidates (trim rawText)). \<exists>ms x.
         P t = Some (JObj ms) \<and> data (healJSON P rawText) = Some (JObj ms) \<and>
         own_prop ms ''htmlContent'' = Some x \<and> truthy x))
   \<and> (\<not> success (healJSON P rawText) \<longrightarrow>
      data (healJSON P rawText) = None \<and>
      (error (healJSON P rawText) = Some ''Empty response'' \<or>
       error (healJSON P rawText) = Some ''JSON parse failed''))"
proof (cases "trim rawText = []")
  case True
  then show ?thesis by (simp add: healJSON_cases)
next
  case False
  show ?thesis
  proof (cases "List.find (\<lambda>t. try_parse P t \<noteq> None) (candidates (trim rawText))")
    case None
    then have "\<forall>t \<in> set (candidates (trim rawText)). try_parse P t = None"
      by (auto simp: find_None_iff)
    then have "\<not> (\<exists>t \<in> set (candidates (trim rawText)).
        \<exists>parsed. P t = Some parsed \<and> has_htmlContent parsed)"
      by (auto simp: try_parse_None)
    with None False show ?thesis by (simp add: healJSON_cases)
  next
    case (Some t)
    then have t: "t \<in> set (candidates (trim rawText))" and "try_parse P t \<noteq> None"
      by (auto simp: find_Some_iff)
    then obtain parsed where
      p: "P t = Some parsed" "has_htmlContent parsed" "try_parse P t = Some parsed"
      by (auto simp: try_parse_Some)
    then obtain ms x where
      m: "parsed = JObj ms" "own_prop ms ''htmlContent'' = Some x" "truthy x"
      by (auto simp: has_htmlContent_iff)
    from Some False p have h: "healJSON P rawText = healed parsed"
      by (simp add: healJSON_cases)
    show ?thesis
      using t p m False by (auto simp: h healed_def)
  qed
qed

theorem healJSON_success_only_with_content_witness:
  "success (healJSON JSON_parse fenced_answer)
   \<and> error (healJSON JSON_parse fenced_answer) = None
   \<and> \<not> success (healJSON JSON_parse no_content)
   \<and> data (healJSON JSON_parse no_content) = None"
proof -
  have a: "success (healJSON JSON_parse fenced_answer)"
    by code_simp
  have b: "\<not> success (healJSON JSON_parse no_content)"
    by code_simp
  show ?thesis
    using healJSON_success_only_with_content [of JSON_parse fenced_answer]
      healJSON_success_only_with_content [of JSON_parse no_content] a b
    by blast
qed

text \<open>
  Claim C8.  When the trimmed text is not empty, the four earlier strategies fail and the
  text has \<open>n > 0\<close> more opening than closing braces, the result of \<^verbatim>\<open>healJSON\<close> is decided
  by the parse of the text with exactly \<open>n\<close> closing braces appended: success with the
  parsed data when that parse has a truthy \<^verbatim>\<open>htmlContent\<close>, the failure record otherwise.
\<close>

theorem brace_balance_repair:
  assumes "trim rawText \<noteq> []"
    and "try_parse P (trim rawText) = None"
    and "(case jsonBlockMatch (trim rawText) of
            Some inner \<Rightarrow> try_parse P (trim inner) | None \<Rightarrow> None) = None"
    and "(case boundary_slice (trim rawText) of
            Some inner \<Rightarrow> try_parse P inner | None \<Rightarrow> None) = None"
    and "try_parse P (strip_trailing_commas (trim rawText)) = None"
    and "count_char (CHR ''{'') (trim rawText) = count_char (CHR ''}'') (trim rawText) + n"
    and "0 < n"
  shows "healJSON P rawText =
     (case P (trim rawText @ replicate n (CHR ''}'')) of
        Some parsed \<Rightarrow>
          if has_htmlContent parsed then \<lparr>success = True, data = Some parsed, error = None\<rparr>
          else \<lparr>success = False, data = None, error = Some ''JSON parse failed''\<rparr>
      | None \<Rightarrow> \<lparr>success = False, data = None, error = Some ''JSON parse failed''\<rparr>)"
  using assms
  by (simp add: healJSON_def Let_def closedText_def try_parse_def healed_def
      split: option.splits)

text \<open>
  The witness: a draft cut off inside a nested object has two unmatched opening braces;
  two closing braces are appended and the data is recovered.
\<close>

theorem brace_balance_repair_witness:
  "count_char (CHR ''{'') truncated_draft = count_char (CHR ''}'') truncated_draft + 2
   \<and> healJSON JSON_parse truncated_draft =
     \<lparr>success = True,
      data = Some (JObj [(''htmlContent'', JStr ''<p>x</p>''),
                          (''meta'', JObj [(''tags'', JArr [JStr ''a''])])]),
      error = None\<rparr>"
proof -
  have 1: "trim truncated_draft \<noteq> []"
    by code_simp
  have 2: "try_parse JSON_parse (trim truncated_draft) = None"
    by code_simp
  have 3: "(case jsonBlockMatch (trim truncated_draft) of
            Some inner \<Rightarrow> try_parse JSON_parse (trim inner) | None \<Rightarrow> None) = None"
    by code_simp
  have 4: "(case boundary_slice (trim truncated_draft) of
            Some inner \<Rightarrow> try_parse JSON_parse inner | None \<Rightarrow> None) = None"
    by code_simp
  have 5: "try_parse JSON_parse (strip_trailing_commas (trim truncated_draft)) = None"
    by code_simp
  have 6: "count_char (CHR ''{'') (trim truncated_draft) =
      count_char (CHR ''}'') (trim truncated_draft) + 2"
    by code_simp
  have 7: "JSON_parse (trim truncated_draft @ replicate 2 (CHR ''}'')) =
      Some (JObj [(''htmlContent'', JStr ''<p>x</p>''),
                  (''meta'', JObj [(''tags'', JArr [JStr ''a''])])])"
    by code_simp
  have 8: "has_htmlContent (JObj [(''htmlContent'', JStr ''<p>x</p>''),
                  (''meta'', JObj [(''tags'', JArr [JStr ''a''])])])"
    by code_simp
  have 9: "count_char (CHR ''{'') truncated_draft = count_char (CHR ''}'') truncated_draft + 2"
    by code_simp
  show ?thesis
    using brace_balance_repair [OF 1 2 3 4 5 6] 7 8 9 by simp
qed

section \<open>The anchor finders\<close>

lemma first_some_SomeD:
  "first_some f xs = Some y \<Longrightarrow> \<exists>x\<in>set xs. f x = Some y"
  by (induction xs) (auto split: option.splits)

lemma or_else_SomeD:
  "or_else a b = Some y \<Longrightarrow> a = Some y \<or> b = Some y"
  by (auto simp: or_else_def split: option.splits)

lemma indexOf_SomeD:
  "indexOf s sub = Some i \<Longrightarrow> i + length sub \<le> length s \<and> take (length sub) (drop i s) = sub"
proof (induction s arbitrary: i)
  case Nil
  then show ?case by (auto split: if_splits)
next
  case (Cons c cs)
  show ?case
  proof (cases "prefix sub (c # cs)")
    case True
    then have "i = 0" using Cons.prems by simp
    moreover from True obtain r where "c # cs = sub @ r" by (auto simp: prefix_def)
    ultimately show ?thesis by (metis add_0 append_eq_conv_conj drop0 length_append le_add1)
  next
    case False
    then obtain j where "indexOf cs sub = Some j" "i = Suc j"
      using Cons.prems by auto
    then show ?thesis using Cons.IH by auto
  qed
qed

lemma js_includes_indexOf:
  "js_includes s sub \<Longrightarrow> indexOf s sub \<noteq> None"
  by (induction s) auto

lemma titleKeywords_stop_words:
  assumes "\<forall>w\<in>set (split_ws (clean_title (toLowerCase t))). w \<noteq> [] \<longrightarrow> w \<in> set STOP_WORDS"
  shows "titleKeywords t = []"
  using assms unfolding titleKeywords_def by (auto simp: filter_empty_conv)

lemma titleWords_stop_words:
  assumes "\<forall>w\<in>set (split_ws (clean_title (toLowerCase t))). w \<noteq> [] \<longrightarrow> w \<in> set stopWords"
  shows "titleWords t = []"
  using assms unfolding titleWords_def by (auto simp: filter_empty_conv)

lemma js_includes_sublist: "js_includes s sub = sublist sub s"
  by (induction s) (auto simp: sublist_Cons_right)

lemma toLowerCase_append: "toLowerCase (a @ b) = toLowerCase a @ toLowerCase b"
  by (induction a) (simp_all add: toLowerCase.simps)

lemma sublist_toLowerCase:
  "sublist a b \<Longrightarrow> sublist (toLowerCase a) (toLowerCase b)"
  unfolding sublist_def by (metis toLowerCase_append)

lemma indexOf_includes:
  "indexOf s sub = Some i \<Longrightarrow> js_includes s sub"
  by (induction s arbitrary: i) (auto split: if_split_asm)

lemma split_runs_aux_sublist:
  "(gap \<longrightarrow> cur = []) \<Longrightarrow> x \<in> set (split_runs_aux sep gap cs cur) \<Longrightarrow> sublist x (rev cur @ cs)"
proof (induction cs arbitrary: gap cur)
  case Nil
  then show ?case by simp
next
  case (Cons c cs)
  show ?case
  proof (cases "sep c")
    case False
    then have "x \<in> set (split_runs_aux sep False cs (c # cur))"
      using Cons.prems by simp
    then have "sublist x (rev (c # cur) @ cs)"
      by (rule Cons.IH [rotated]) simp
    then show ?thesis by simp
  next
    case True
    show ?thesis
    proof (cases gap)
      case True
      then have "cur = []" using Cons.prems by simp
      moreover have "x \<in> set (split_runs_aux sep True cs [])"
        using Cons.prems \<open>sep c\<close> True \<open>cur = []\<close> by simp
      then have "sublist x (rev [] @ cs)"
        by (rule Cons.IH [rotated]) simp
      ultimately show ?thesis by (simp add: sublist_Cons_right)
    next
      case False
      then have "x = rev cur \<or> x \<in> set (split_runs_aux sep True cs [])"
        using Cons.prems \<open>sep c\<close> by simp
      then show ?thesis
      proof
        assume "x = rev cur"
        then show ?thesis by (simp add: sublist_append_rightI)
      next
        assume "x \<in> set (split_runs_aux sep True cs [])"
        then have "sublist x (rev [] @ cs)"
          by (rule Cons.IH [rotated]) simp
        then have "sublist x (c # cs)" by (simp add: sublist_Cons_right)
        then show ?thesis unfolding sublist_def by (metis append.assoc)
      qed
    qed
  qed
qed

lemma sentences_sublist:
  "s \<in> set (sentences p) \<Longrightarrow> sublist s p"
  using split_runs_aux_sublist [of False "[]" s _ p]
  by (auto simp: sentences_def split_runs_def)

lemma rich_strategy1_keyword:
  assumes "rich_strategy1 p kws = Some a"
  shows "\<exists>kw\<in>set kws. js_includes (toLowerCase p) kw"
proof -
  from assms obtain kw where kw: "kw \<in> set kws"
    and "first_some (rich_strategy1_sentence p kw) (sentences p) = Some a"
    unfolding rich_strategy1_def by (blast dest: first_some_SomeD)
  then obtain s where s: "s \<in> set (sentences p)" and "rich_strategy1_sentence p kw s = Some a"
    by (blast dest: first_some_SomeD)
  then obtain i where "indexOf (toLowerCase s) kw = Some i"
    unfolding rich_strategy1_sentence_def Let_def by (auto split: option.splits)
  then have "sublist kw (toLowerCase s)"
    using indexOf_includes js_includes_sublist by blast
  moreover have "sublist (toLowerCase s) (toLowerCase p)"
    using s sentences_sublist sublist_toLowerCase by blast
  ultimately have "sublist kw (toLowerCase p)"
    using sublist_order.order_trans by blast
  then show ?thesis using kw js_includes_sublist by blast
qed

lemma rich_strategy2_keyword:
  assumes "rich_strategy2 p kws = Some a"
  shows "\<exists>kw\<in>set kws. js_includes (toLowerCase p) kw"
proof -
  from assms obtain kw where kw: "kw \<in> set kws" and "rich_strategy2_keyword p kw = Some a"
    unfolding rich_strategy2_def by (blast dest: first_some_SomeD)
  then obtain i where "indexOf (toLowerCase p) kw = Some i"
    unfolding rich_strategy2_keyword_def Let_def by (auto split: option.splits)
  then show ?thesis using kw indexOf_includes by blast
qed

lemma pairs_set: "(a, b) \<in> set (pairs xs) \<Longrightarrow> a \<in> set xs \<and> b \<in> set xs"
  by (induction xs) auto

lemma rich_strategy3_keyword:
  assumes "rich_strategy3 p kws = Some a"
  shows "\<exists>kw\<in>set kws. js_includes (toLowerCase p) kw"
proof -
  from assms obtain kk where kk: "kk \<in> set (pairs kws)" and r: "rich_strategy3_pair p kk = Some a"
    unfolding rich_strategy3_def by (blast dest: first_some_SomeD)
  obtain kw1 kw2 where e: "kk = (kw1, kw2)" by (cases kk)
  from r obtain i where "indexOf (toLowerCase p) kw1 = Some i"
    unfolding rich_strategy3_pair_def e by (auto split: option.splits)
  moreover have "kw1 \<in> set kws" using kk pairs_set [of kw1 kw2 kws] unfolding e by simp
  ultimately show ?thesis using indexOf_includes by blast
qed

lemma findContextualRichAnchor_keyword:
  assumes "\<forall>kw\<in>set (allKeywords target). \<not> js_includes (toLowerCase p) kw"
  shows "findContextualRichAnchor p target = []"
proof (cases "or_else (rich_strategy1 p (allKeywords target))
               (or_else (rich_strategy2 p (allKeywords target))
                  (rich_strategy3 p (allKeywords target)))")
  case None
  then show ?thesis by (simp add: findContextualRichAnchor_def)
next
  case (Some a)
  then have "\<exists>kw\<in>set (allKeywords target). js_includes (toLowerCase p) kw"
    by (blast dest: or_else_SomeD rich_strategy1_keyword rich_strategy2_keyword
        rich_strategy3_keyword)
  then show ?thesis using assms by blast
qed

lemma join_sp_prefix: "prefix w (join_sp (w # ws))"
  by (cases ws) simp_all

lemma concat_map_member:
  "x \<in> set (concat (map (\<lambda>l. map (f l) (g l)) ls)) \<Longrightarrow> \<exists>l s. x = f l s"
  by auto

lemma phrases_word:
  assumes "ph \<in> set (phrases ws)" and "ph \<noteq> []"
  shows "\<exists>w\<in>set ws. sublist w ph"
proof -
  from assms(1) obtain len start where ph: "ph = join_sp (take len (drop start ws))"
    unfolding phrases_def
    using concat_map_member [of ph "\<lambda>len start. join_sp (take len (drop start ws))"
        "\<lambda>len. [0..<Suc (length ws - len)]" "rev [2..<Suc (min 4 (length ws))]"]
    by blast
  with assms(2) obtain w r where wr: "take len (drop start ws) = w # r"
    by (cases "take len (drop start ws)") auto
  then have "w \<in> set (take len (drop start ws))" by simp
  then have "w \<in> set ws" by (meson in_set_dropD in_set_takeD)
  moreover have "sublist w ph"
    unfolding ph wr using join_sp_prefix prefix_imp_sublist by blast
  ultimately show ?thesis by blast
qed

lemma strategy1_word:
  assumes "strategy1 s ws = Some a"
  shows "\<exists>w\<in>set ws. js_includes (toLowerCase s) w"
proof -
  from assms obtain ph where f: "find (\<lambda>phrase. length phrase \<ge> 5 \<and> length phrase \<le> 40
        \<and> js_includes (toLowerCase s) phrase) (phrases ws) = Some ph"
    unfolding strategy1_def Let_def by (auto split: option.splits)
  then have p: "5 \<le> length ph" "js_includes (toLowerCase s) ph" "ph \<in> set (phrases ws)"
    by (auto simp: find_Some_iff)
  from p(1) have "ph \<noteq> []" by auto
  with p(3) obtain w where w: "w \<in> set ws" "sublist w ph"
    using phrases_word [of ph ws] by auto
  then have "sublist w (toLowerCase s)"
    using p(2) js_includes_sublist sublist_order.order_trans by blast
  then show ?thesis using w(1) js_includes_sublist by blast
qed

lemma strategy2_word_found:
  "strategy2 s ws = Some a \<Longrightarrow> \<exists>w\<in>set ws. js_includes (toLowerCase s) w"
proof (induction ws)
  case Nil
  then show ?case by simp
next
  case (Cons w ws)
  show ?case
  proof (cases "indexOf (toLowerCase s) w")
    case None
    then show ?thesis using Cons by simp
  next
    case (Some i)
    then show ?thesis using indexOf_includes by fastforce
  qed
qed

lemma strategy3_word_found:
  "strategy3 s ws = Some a \<Longrightarrow> \<exists>w\<in>set ws. js_includes (toLowerCase s) w"
proof (induction ws)
  case Nil
  then show ?case by simp
next
  case (Cons w ws)
  show ?case
  proof (cases "indexOf (toLowerCase s) w")
    case None
    then show ?thesis using Cons by (simp split: if_split_asm)
  next
    case (Some i)
    then show ?thesis using indexOf_includes by fastforce
  qed
qed

lemma strategy4_words_found:
  "strategy4_words s ws = Some a \<Longrightarrow> \<exists>w\<in>set ws. js_includes (toLowerCase s) w"
proof (induction ws)
  case Nil
  then show ?case by simp
next
  case (Cons w ws)
  show ?case
  proof (cases "indexOf (toLowerCase s) w")
    case None
    then show ?thesis using Cons by simp
  next
    case (Some i)
    then show ?thesis using indexOf_includes by fastforce
  qed
qed

lemma findSemanticAnchor_word:
  assumes "\<forall>w\<in>set (titleWords (title target) @ slugWords (slug target)).
             \<not> js_includes (toLowerCase s) w"
  shows "findSemanticAnchor s target = []"
proof (cases "or_else (strategy1 s (titleWords (title target)))
                (or_else (strategy2 s (filter (\<lambda>w. length w \<ge> 5) (titleWords (title target))))
                   (or_else (strategy3 s (titleWords (title target)))
                      (strategy4 s (slug target))))")
  case None
  then show ?thesis by (simp add: findSemanticAnchor_def Let_def)
next
  case (Some a)
  then consider "strategy1 s (titleWords (title target)) = Some a"
    | "strategy2 s (filter (\<lambda>w. length w \<ge> 5) (titleWords (title target))) = Some a"
    | "strategy3 s (titleWords (title target)) = Some a"
    | "strategy4 s (slug target) = Some a"
    by (blast dest: or_else_SomeD)
  then have "\<exists>w\<in>set (titleWords (title target) @ slugWords (slug target)).
               js_includes (toLowerCase s) w"
  proof cases
    case 1
    then show ?thesis using strategy1_word by fastforce
  next
    case 2
    then show ?thesis using strategy2_word_found by fastforce
  next
    case 3
    then show ?thesis using strategy3_word_found by fastforce
  next
    case 4
    then have "strategy4_words s (slugWords (slug target)) = Some a"
      by (simp add: strategy4_def split: if_split_asm)
    then show ?thesis using strategy4_words_found by fastforce
  qed
  then show ?thesis using assms by blast
qed

lemma toLowerCase_plain: "I_dot \<notin> set s \<Longrightarrow> toLowerCase s = map to_lower s"
  by (induction s) (auto simp: toLowerCase.simps)

lemma upper_code:
  assumes "is_upper c"
  shows "(65 \<le> (of_char c :: nat) \<and> (of_char c :: nat) \<le> 90)
       \<or> (192 \<le> (of_char c :: nat) \<and> (of_char c :: nat) \<le> 222)"
  using assms by (auto simp: is_upper_def less_eq_char_def)

lemma is_space_code:
  "is_space c = ((of_char c :: nat) \<in> {9, 10, 11, 12, 13, 32, 160})"
proof -
  have e: "(c = d) = ((of_char c :: nat) = of_char d)" for d
    by auto
  show ?thesis
    by (simp add: is_space_def e)
qed

lemma is_space_to_lower: "is_space (to_lower c) = is_space c"
proof (cases "is_upper c")
  case False
  then show ?thesis by (simp add: to_lower_def)
next
  case True
  note r = upper_code [OF True]
  have n: "c \<noteq> I_dot" "c \<noteq> dot_above"
    using r by (auto simp: I_dot_def dot_above_def)
  have l: "(of_char (to_lower c) :: nat) = of_char c + 32"
    using True r n by (auto simp: to_lower_def code_def)
  show ?thesis
    using r l by (auto simp: is_space_code)
qed

lemma is_space_comp: "is_space \<circ> to_lower = is_space"
  by (auto simp: is_space_to_lower fun_eq_iff)

lemma length_toLowerCase_plain: "I_dot \<notin> set s \<Longrightarrow> length (toLowerCase s) = length s"
  by (simp add: toLowerCase_plain)

lemma spaces_toLowerCase_plain:
  "I_dot \<notin> set s \<Longrightarrow> map is_space (toLowerCase s) = map is_space s"
  by (simp add: toLowerCase_plain is_space_to_lower)

lemma split_ws_aux_length_cong:
  "map is_space a = map is_space b \<Longrightarrow>
   length (split_ws_aux g a cur) = length (split_ws_aux g b cur')"
proof (induction a arbitrary: b g cur cur')
  case Nil
  then show ?case by simp
next
  case (Cons c cs)
  then obtain d ds where b: "b = d # ds" "is_space c = is_space d" "map is_space cs = map is_space ds"
    by (cases b) auto
  show ?case
    using Cons.IH [OF b(3)] b(2) by (simp add: b(1))
qed

lemma split_ws_length_cong:
  "map is_space a = map is_space b \<Longrightarrow> length (split_ws a) = length (split_ws b)"
  unfolding split_ws_def by (rule split_ws_aux_length_cong)

lemma found_phrase:
  assumes "js_includes p c \<or> js_includes (toLowerCase p) (toLowerCase c)"
    and "I_dot \<notin> set p" and "I_dot \<notin> set c"
  shows "length (substring_at p (indexOf (toLowerCase p) (toLowerCase c)) (length c)) = length c
       \<and> length (split_ws (substring_at p (indexOf (toLowerCase p) (toLowerCase c)) (length c)))
           = length (split_ws c)"
proof -
  have "js_includes (toLowerCase p) (toLowerCase c)"
    using assms(1) sublist_toLowerCase js_includes_sublist by blast
  then obtain i where i: "indexOf (toLowerCase p) (toLowerCase c) = Some i"
    using js_includes_indexOf by blast
  let ?r = "take (length c) (drop i p)"
  have lp: "toLowerCase p = map to_lower p" and lc: "toLowerCase c = map to_lower c"
    using assms(2,3) by (simp_all add: toLowerCase_plain)
  from indexOf_SomeD [OF i]
  have le: "i + length c \<le> length p"
    and eq: "take (length c) (drop i (map to_lower p)) = map to_lower c"
    by (simp_all add: lp lc)
  have "map to_lower ?r = map to_lower c"
    using eq by (simp add: take_map drop_map)
  then have "map is_space (map to_lower ?r) = map is_space (map to_lower c)"
    by (rule arg_cong)
  then have "map is_space ?r = map is_space c"
    by (simp add: is_space_comp)
  then have "length (split_ws ?r) = length (split_ws c)"
    by (rule split_ws_length_cong)
  moreover have "length ?r = length c" using le by simp
  ultimately show ?thesis by (simp add: i substring_at_def slice_def)
qed

lemma set_trim: "set (trim s) \<subseteq> set s"
  unfolding trim_def by (auto dest!: set_dropWhileD)

lemma set_strip_edges: "set (strip_edges s) \<subseteq> set s"
  unfolding strip_edges_def by (auto dest!: set_dropWhileD)

lemma set_join_sp: "set (join_sp ws) \<subseteq> (\<Union>w\<in>set ws. set w) \<union> {CHR '' ''}"
  by (induction ws rule: join_sp.induct) auto

lemma set_split_ws_aux:
  "x \<in> set (split_ws_aux g s cur) \<Longrightarrow> set x \<subseteq> set cur \<union> set s"
proof (induction s arbitrary: g cur)
  case Nil
  then show ?case by simp
next
  case (Cons c cs)
  show ?case
  proof (cases "is_space c")
    case True
    show ?thesis
    proof (cases g)
      case True
      then have "x \<in> set (split_ws_aux True cs cur)"
        using Cons.prems \<open>is_space c\<close> by simp
      then show ?thesis using Cons.IH by fastforce
    next
      case False
      then have "x = rev cur \<or> x \<in> set (split_ws_aux True cs [])"
        using Cons.prems \<open>is_space c\<close> by simp
      then show ?thesis using Cons.IH by fastforce
    qed
  next
    case False
    then have "x \<in> set (split_ws_aux False cs (c # cur))"
      using Cons.prems by simp
    then show ?thesis using Cons.IH by fastforce
  qed
qed

lemma set_split_ws: "x \<in> set (split_ws s) \<Longrightarrow> set x \<subseteq> set s"
  unfolding split_ws_def using set_split_ws_aux by fastforce

lemma space_not_I_dot: "CHR '' '' \<noteq> I_dot"
  by (simp add: I_dot_def)

lemma phrase_candidate_meets:
  assumes "phrase_candidate p ws k n off = Some a"
    and "I_dot \<notin> set p" and "\<forall>w\<in>set ws. I_dot \<notin> set w"
  shows "meets_minimum a"
proof -
  define c where "c = trim (strip_edges (trim (join_sp
      (take (min (length ws) (k - off + n) - (k - off)) (drop (k - off) ws)))))"
  have "(js_includes p c \<or> js_includes (toLowerCase p) (toLowerCase c))
      \<and> a = substring_at p (indexOf (toLowerCase p) (toLowerCase c)) (length c)
      \<and> MIN_ANCHOR_CHARS \<le> length c \<and> length c \<le> MAX_ANCHOR_CHARS
      \<and> MIN_ANCHOR_WORDS \<le> length (split_ws c) \<and> length (split_ws c) \<le> MAX_ANCHOR_WORDS"
    using assms(1) unfolding phrase_candidate_def Let_def c_def [symmetric]
    by (simp split: if_split_asm)
  moreover have "I_dot \<notin> set c"
  proof
    assume "I_dot \<in> set c"
    then have "I_dot \<in> set (join_sp
      (take (min (length ws) (k - off + n) - (k - off)) (drop (k - off) ws)))"
      unfolding c_def using set_trim set_strip_edges by blast
    then obtain w where "w \<in> set (take (min (length ws) (k - off + n) - (k - off))
        (drop (k - off) ws))" "I_dot \<in> set w"
      using set_join_sp space_not_I_dot by fastforce
    then show False using assms(3) by (meson in_set_dropD in_set_takeD)
  qed
  ultimately show ?thesis
    using found_phrase [of p c] assms(2) by (simp add: meets_minimum_def)
qed

lemma rich_strategy1_sentence_meets:
  assumes "rich_strategy1_sentence p kw s = Some a" and "I_dot \<notin> set p" and "I_dot \<notin> set s"
  shows "meets_minimum a"
proof -
  from assms(1) obtain k where
    "first_some (\<lambda>phraseLen. first_some (phrase_candidate p (split_ws (trim s)) k phraseLen)
        [0..<phraseLen]) [6, 5, 4, 3] = Some a"
    unfolding rich_strategy1_sentence_def Let_def by (simp split: option.splits)
  then obtain n where "first_some (phrase_candidate p (split_ws (trim s)) k n) [0..<n] = Some a"
    by (blast dest: first_some_SomeD)
  then obtain off where c: "phrase_candidate p (split_ws (trim s)) k n off = Some a"
    by (blast dest: first_some_SomeD)
  have "\<forall>w\<in>set (split_ws (trim s)). I_dot \<notin> set w"
    using assms(3) set_split_ws set_trim by blast
  with c assms(2) show ?thesis by (rule phrase_candidate_meets)
qed

lemma rich_strategy1_meets:
  assumes "rich_strategy1 p kws = Some a" and "I_dot \<notin> set p"
  shows "meets_minimum a"
proof -
  from assms(1) obtain kw where
    "first_some (rich_strategy1_sentence p kw) (sentences p) = Some a"
    unfolding rich_strategy1_def by (blast dest: first_some_SomeD)
  then obtain s where s: "s \<in> set (sentences p)" "rich_strategy1_sentence p kw s = Some a"
    by (blast dest: first_some_SomeD)
  have "I_dot \<notin> set s"
    using s(1) assms(2) sentences_sublist set_mono_sublist by blast
  with s(2) assms(2) show ?thesis by (rule rich_strategy1_sentence_meets)
qed

lemma rich_strategy2_keyword_meets:
  assumes "rich_strategy2_keyword p kw = Some a"
  shows "meets_minimum a"
proof -
  from assms have "strategy2_accepts a"
    unfolding rich_strategy2_keyword_def Let_def
    by (simp split: option.splits if_split_asm)
  then show ?thesis
    by (simp add: strategy2_accepts_def meets_minimum_def Let_def
        MIN_ANCHOR_WORDS_def MAX_ANCHOR_WORDS_def)
qed

lemma rich_strategy2_meets:
  assumes "rich_strategy2 p kws = Some a"
  shows "meets_minimum a"
  using assms unfolding rich_strategy2_def
  by (blast dest: first_some_SomeD rich_strategy2_keyword_meets)

lemma rich_strategy3_pair_meets:
  assumes "rich_strategy3_pair p kk = Some a"
  shows "meets_minimum a"
proof -
  obtain kw1 kw2 where kk: "kk = (kw1, kw2)" by (cases kk)
  from assms have "strategy3_accepts a"
    unfolding rich_strategy3_pair_def Let_def kk
    by (simp split: option.splits if_split_asm)
  then show ?thesis
    by (simp add: strategy3_accepts_def meets_minimum_def Let_def
        MIN_ANCHOR_WORDS_def MAX_ANCHOR_WORDS_def)
qed

lemma rich_strategy3_meets:
  assumes "rich_strategy3 p kws = Some a"
  shows "meets_minimum a"
  using assms unfolding rich_strategy3_def
  by (blast dest: first_some_SomeD rich_strategy3_pair_meets)

lemma findContextualRichAnchor_meets:
  assumes "I_dot \<notin> set p"
  shows "findContextualRichAnchor p target = [] \<or> meets_minimum (findContextualRichAnchor p target)"
proof (cases "or_else (rich_strategy1 p (allKeywords target))
               (or_else (rich_strategy2 p (allKeywords target))
                  (rich_strategy3 p (allKeywords target)))")
  case None
  then show ?thesis by (simp add: findContextualRichAnchor_def)
next
  case (Some a)
  then have "meets_minimum a"
    using assms
    by (blast dest: or_else_SomeD rich_strategy1_meets rich_strategy2_meets rich_strategy3_meets)
  then show ?thesis using Some by (simp add: findContextualRichAnchor_def)
qed

lemma slice_found:
  assumes "indexOf (toLowerCase s) w = Some i" and "I_dot \<notin> set s"
  shows "length (slice s i (i + length w)) = length w"
proof -
  have "i + length w \<le> length s"
    using indexOf_SomeD [OF assms(1)] assms(2) by (simp add: length_toLowerCase_plain)
  then show ?thesis by (simp add: slice_def)
qed

lemma strategy1_length:
  assumes "strategy1 s ws = Some a" and d: "I_dot \<notin> set s"
  shows "5 \<le> length a"
proof -
  from assms(1) obtain ph where f: "find (\<lambda>phrase. length phrase \<ge> 5 \<and> length phrase \<le> 40
        \<and> js_includes (toLowerCase s) phrase) (phrases ws) = Some ph"
    and a: "a = substring_at s (indexOf (toLowerCase s) ph) (length ph)"
    unfolding strategy1_def Let_def by (auto split: option.splits)
  from f have p: "5 \<le> length ph" "js_includes (toLowerCase s) ph"
    by (auto simp: find_Some_iff)
  then obtain i where i: "indexOf (toLowerCase s) ph = Some i"
    using js_includes_indexOf by blast
  show ?thesis using p(1) slice_found [OF i d] by (simp add: a i substring_at_def)
qed

lemma strategy2_word_length:
  assumes "strategy2_word s w i = Some a" and "indexOf (toLowerCase s) w = Some i"
    and "I_dot \<notin> set s"
  shows "5 \<le> length a"
proof -
  define actual where "actual = slice s i (i + length w)"
  have l: "length actual = length w"
    unfolding actual_def using assms(2,3) by (rule slice_found)
  from assms(1) have
    "(case letters_after 15 (slice s (i + length w) (i + length w + 30)) of
        Some g \<Rightarrow>
          if toLowerCase g \<notin> set stopWords
             \<and> length (actual @ '' '' @ g) \<ge> 8 \<and> length (actual @ '' '' @ g) \<le> 35
          then Some (actual @ '' '' @ g) else None
      | None \<Rightarrow> None) = Some a
     \<or> (case letters_before 15 (slice s (i - 30) i) of
          Some g \<Rightarrow>
            if toLowerCase g \<notin> set stopWords
               \<and> length (g @ '' '' @ actual) \<ge> 8 \<and> length (g @ '' '' @ actual) \<le> 35
            then Some (g @ '' '' @ actual) else None
        | None \<Rightarrow> None) = Some a
     \<or> (if length w \<ge> 7 then Some actual else None) = Some a"
    unfolding strategy2_word_def Let_def actual_def
    by (blast dest: or_else_SomeD)
  then show ?thesis
  proof (elim disjE)
    assume "(case letters_after 15 (slice s (i + length w) (i + length w + 30)) of
        Some g \<Rightarrow>
          if toLowerCase g \<notin> set stopWords
             \<and> length (actual @ '' '' @ g) \<ge> 8 \<and> length (actual @ '' '' @ g) \<le> 35
          then Some (actual @ '' '' @ g) else None
      | None \<Rightarrow> None) = Some a"
    then show ?thesis by (auto split: option.splits if_split_asm)
  next
    assume "(case letters_before 15 (slice s (i - 30) i) of
          Some g \<Rightarrow>
            if toLowerCase g \<notin> set stopWords
               \<and> length (g @ '' '' @ actual) \<ge> 8 \<and> length (g @ '' '' @ actual) \<le> 35
            then Some (g @ '' '' @ actual) else None
        | None \<Rightarrow> None) = Some a"
    then show ?thesis by (auto split: option.splits if_split_asm)
  next
    assume "(if length w \<ge> 7 then Some actual else None) = Some a"
    then show ?thesis using l by (auto split: if_split_asm)
  qed
qed

lemma strategy2_length:
  "strategy2 s ws = Some a \<Longrightarrow> I_dot \<notin> set s \<Longrightarrow> 5 \<le> length a"
proof (induction ws)
  case Nil
  then show ?case by simp
next
  case (Cons w ws)
  show ?case
  proof (cases "indexOf (toLowerCase s) w")
    case None
    then show ?thesis using Cons by simp
  next
    case (Some i)
    then have "strategy2_word s w i = Some a \<or> strategy2 s ws = Some a"
      using Cons.prems by (simp add: or_else_SomeD)
    then show ?thesis using Cons.IH Cons.prems(2) strategy2_word_length Some by blast
  qed
qed

lemma strategy3_word_length:
  assumes "strategy3_word s w i = Some a" and "indexOf (toLowerCase s) w = Some i"
    and "I_dot \<notin> set s" and "4 \<le> length w"
  shows "5 \<le> length a"
proof -
  define actual where "actual = slice s i (i + length w)"
  have l: "length actual = length w"
    unfolding actual_def using assms(2,3) by (rule slice_found)
  from assms(1) have
    "(case letters_after 12 (slice s (i + length w) (i + length w + 25)) of
        Some g \<Rightarrow> if toLowerCase g \<notin> set stopWords then Some (actual @ '' '' @ g) else None
      | None \<Rightarrow> None) = Some a
     \<or> (if length w \<ge> 6 then Some actual else None) = Some a"
    unfolding strategy3_word_def Let_def actual_def
    by (blast dest: or_else_SomeD)
  then show ?thesis
    using l assms(4) by (auto split: option.splits if_split_asm)
qed

lemma strategy3_length:
  "strategy3 s ws = Some a \<Longrightarrow> I_dot \<notin> set s \<Longrightarrow> 5 \<le> length a"
proof (induction ws)
  case Nil
  then show ?case by simp
next
  case (Cons w ws)
  show ?case
  proof (cases "length w < 4")
    case True
    then show ?thesis using Cons by simp
  next
    case False
    show ?thesis
    proof (cases "indexOf (toLowerCase s) w")
      case None
      then show ?thesis using Cons False by simp
    next
      case (Some i)
      then have "strategy3_word s w i = Some a \<or> strategy3 s ws = Some a"
        using Cons.prems False by (simp add: or_else_SomeD)
      then show ?thesis
        using Cons.IH Cons.prems(2) strategy3_word_length [OF _ Some Cons.prems(2)] False
        by auto
    qed
  qed
qed

lemma strategy4_words_length:
  "strategy4_words s ws = Some a \<Longrightarrow> I_dot \<notin> set s \<Longrightarrow> 5 \<le> length a"
  by (induction ws) (auto dest: slice_found split: option.splits if_split_asm)

lemma strategy4_length:
  "strategy4 s sl = Some a \<Longrightarrow> I_dot \<notin> set s \<Longrightarrow> 5 \<le> length a"
  unfolding strategy4_def by (auto dest: strategy4_words_length split: if_split_asm)

lemma findSemanticAnchor_length:
  assumes "I_dot \<notin> set s"
  shows "findSemanticAnchor s target = [] \<or> 5 \<le> length (findSemanticAnchor s target)"
proof (cases "or_else (strategy1 s (titleWords (title target)))
                (or_else (strategy2 s (filter (\<lambda>w. length w \<ge> 5) (titleWords (title target))))
                   (or_else (strategy3 s (titleWords (title target)))
                      (strategy4 s (slug target))))")
  case None
  then show ?thesis by (simp add: findSemanticAnchor_def Let_def)
next
  case (Some a)
  then have "5 \<le> length a"
    using assms
    by (blast dest: or_else_SomeD strategy1_length strategy2_length strategy3_length
        strategy4_length)
  then show ?thesis using Some by (simp add: findSemanticAnchor_def Let_def)
qed



text \<open>
  What holds of both anchor finders for every paragraph and target: a title whose words are
  all stop words gives the empty string, and so does a target none of whose keywords occurs
  in the lower-cased paragraph; there is no fallback anchor.
\<close>

lemma anchor_empty_without_keyword:
  fixes target :: InternalLinkTarget
  shows "((\<forall>w\<in>set (split_ws (clean_title (toLowerCase (title target)))).
            w \<noteq> [] \<longrightarrow> w \<in> set STOP_WORDS)
          \<longrightarrow> findContextualRichAnchor p target = [])
     \<and> ((\<forall>w\<in>set (split_ws (clean_title (toLowerCase (title target)))).
            w \<noteq> [] \<longrightarrow> w \<in> set stopWords)
          \<longrightarrow> findSemanticAnchor p target = [])
     \<and> ((\<forall>kw\<in>set (allKeywords target). \<not> js_includes (toLowerCase p) kw)
          \<longrightarrow> findContextualRichAnchor p target = [])
     \<and> ((\<forall>w\<in>set (titleWords (title target) @ slugWords (slug target)).
            \<not> js_includes (toLowerCase p) w)
          \<longrightarrow> findSemanticAnchor p target = [])"
proof -
  have 3: "(\<forall>w\<in>set (split_ws (clean_title (toLowerCase (title target)))).
            w \<noteq> [] \<longrightarrow> w \<in> set STOP_WORDS)
          \<longrightarrow> findContextualRichAnchor p target = []"
    using titleKeywords_stop_words [of "title target"]
    by (simp add: findContextualRichAnchor_def)
  have 4: "(\<forall>w\<in>set (split_ws (clean_title (toLowerCase (title target)))).
            w \<noteq> [] \<longrightarrow> w \<in> set stopWords)
          \<longrightarrow> findSemanticAnchor p target = []"
    using titleWords_stop_words [of "title target"]
    by (simp add: findSemanticAnchor_def)
  show ?thesis
    using 3 4 findContextualRichAnchor_keyword [of target p]
      findSemanticAnchor_word [of target p]
    by blast
qed

text \<open>
  Without \<^verbatim>\<open>U+0130\<close> in the paragraph the lower-cased text has the paragraph's length and
  the indices agree: then \<^verbatim>\<open>findContextualRichAnchor\<close> returns the empty string or an anchor
  of 15 to 60 characters and 3 to 7 words, and \<^verbatim>\<open>findSemanticAnchor\<close> the empty string or
  an anchor of at least 4 characters.
\<close>

lemma anchor_minimum_without_I_dot:
  fixes target :: InternalLinkTarget
  assumes "I_dot \<notin> set p"
  shows "(findContextualRichAnchor p target = []
          \<or> (MIN_ANCHOR_CHARS \<le> length (findContextualRichAnchor p target)
              \<and> length (findContextualRichAnchor p target) \<le> MAX_ANCHOR_CHARS
              \<and> MIN_ANCHOR_WORDS \<le> length (split_ws (findContextualRichAnchor p target))
              \<and> length (split_ws (findContextualRichAnchor p target)) \<le> MAX_ANCHOR_WORDS))
     \<and> (findSemanticAnchor p target = [] \<or> 4 \<le> length (findSemanticAnchor p target))"
  using findContextualRichAnchor_meets [OF assms, of target]
    findSemanticAnchor_length [OF assms, of target]
  by (auto simp: meets_minimum_def)

text \<open>
  Claim C6.  Both anchor finders look a phrase up in the lower-cased paragraph and cut the
  anchor out of the paragraph itself at the index found.  Lower-casing \<^verbatim>\<open>U+0130\<close> makes the
  text longer, so behind such a character the index lies too far right:
  \<^verbatim>\<open>findSemanticAnchor\<close> returns the three characters \<^verbatim>\<open>get\<close>, and
  \<^verbatim>\<open>findContextualRichAnchor\<close>, having accepted the phrase \<^verbatim>\<open>old widget kits\<close> of 15
  characters, returns the 13 characters \<^verbatim>\<open>d widget kits\<close>, fewer than
  \<open>MIN_ANCHOR_CHARS\<close>.
\<close>

theorem anchor_below_minimum:
  "findSemanticAnchor dotted_text t_widget = ''get''
   \<and> findContextualRichAnchor dotted_paragraph t_widgets = ''d widget kits''
   \<and> length (findContextualRichAnchor dotted_paragraph t_widgets) < MIN_ANCHOR_CHARS"
  by code_simp

section \<open>The placements of the link injection\<close>

text \<open>
  Claim C5.  The orchestrator's \<^verbatim>\<open>injectInternalLinksDistributed\<close> takes the targets by
  index and never looks at the URLs already placed: for a target list that holds the same
  URL twice and a section with two matching paragraphs 158 words apart, the placement list
  holds the URL \<^verbatim>\<open>/widgets\<close> twice, at the word positions 1 and 159.
\<close>

theorem orchestrator_links_same_url_twice:
  "map (\<lambda>l. (url l, anchorText l, position l))
     (linksAdded (injectInternalLinksDistributed two_widget_sections [t_widgets, t_widgets] []))
   = [(''/widgets'', ''widget management'', 1), (''/widgets'', ''widget management'', 159)]"
  by code_simp

section \<open>Properties of reference discovery\<close>













section \<open>The generation loop\<close>

lemma getCircuitBreaker_snd_count:
  "failure_count (snd (getCircuitBreaker p reg)) q = failure_count reg q"
  by (simp add: getCircuitBreaker_def failure_count_def Let_def split: option.splits)

lemma isCircuitOpen_count:
  "failure_count (snd (isCircuitOpen now p reg)) q = failure_count reg q"
  by (simp add: isCircuitOpen_snd getCircuitBreaker_snd_count)

lemma recordFailure_count:
  "failure_count (recordFailure now p reg) p = failure_count reg p + 1"
  by (simp add: recordFailure_at failure_count_def getCircuitBreaker_fst Let_def split: option.splits)

lemma recordSuccess_count:
  "failure_count (recordSuccess p reg) p = 0"
  by (simp add: recordSuccess_at failure_count_def Let_def)

lemma callLLM_failure:
  assumes "\<not> fst (isCircuitOpen (clk 0) p reg)" and "provider_call p net = Inl e"
  shows "callLLM clk p net reg =
           (Inl e, if counts_for_breaker e
                   then recordFailure (clk 1) p (snd (isCircuitOpen (clk 0) p reg))
                   else snd (isCircuitOpen (clk 0) p reg))"
  using assms by (cases "isCircuitOpen (clk 0) p reg") (simp add: callLLM_def)

lemma callLLM_answer:
  assumes "\<not> fst (isCircuitOpen (clk 0) p reg)" and "provider_call p net = Inr resp"
  shows "callLLM clk p net reg = (Inr resp, recordSuccess p (snd (isCircuitOpen (clk 0) p reg)))"
  using assms by (cases "isCircuitOpen (clk 0) p reg") (simp add: callLLM_def)

lemma callLLM_open:
  assumes "fst (isCircuitOpen (clk 0) p reg)"
  shows "callLLM clk p net reg =
           (Inl (Error (''Circuit breaker OPEN for '' @ p)), snd (isCircuitOpen (clk 0) p reg))"
  using assms by (cases "isCircuitOpen (clk 0) p reg") (simp add: callLLM_def)

lemma run_attempt_registry:
  "snd (run_attempt w config k reg) =
     snd (callLLM (time_of w k) (provider config) (answers w k) reg)"
  by (simp add: run_attempt_def Let_def split: prod.splits sum.splits)

lemma healJSON_data_has_content:
  assumes "success (healJSON P t)" and "data (healJSON P t) = Some d"
  shows "has_htmlContent d"
proof (cases "List.find (\<lambda>c. try_parse P c \<noteq> None) (candidates (trim t))")
  case None
  with assms(1) show ?thesis
    by (simp add: healJSON_cases split: if_splits)
next
  case (Some c)
  then have "try_parse P c \<noteq> None"
    by (auto simp: find_Some_iff)
  then obtain parsed where p: "try_parse P c = Some parsed"
    by blast
  with assms Some have "d = parsed"
    by (simp add: healJSON_cases healed_def split: if_splits)
  with p show ?thesis
    by (simp add: try_parse_Some)
qed

lemma run_attempt_success:
  assumes "\<not> fst (isCircuitOpen (time_of w k 0) (provider config) reg)"
    and "provider_call (provider config) (answers w k) = Inr resp"
    and "success (healJSON (parse w) resp)"
    and "data (healJSON (parse w) resp) = Some d"
    and "final_document w config k d = Inr doc"
    and "countWords doc \<ge> 2000"
  shows "fst (run_attempt w config k reg) =
     Some \<lparr>contract = \<lparr>raw = d, htmlContent = doc, wordCount = countWords doc\<rparr>,
           attempts = k, totalTime = time_of w k 2 - time_of w 0 0,
           youtubeVideo = joined_video (youtubePromise config (video_task w)),
           references = joined_references (referencesPromise config (reference_task w))\<rparr>"
proof -
  have c: "has_htmlContent d"
    using assms(3,4) by (rule healJSON_data_has_content)
  show ?thesis
    using assms c by (simp add: run_attempt_def callLLM_answer Let_def)
qed

lemma run_attempt_Some:
  assumes "fst (run_attempt w config k reg) = Some r"
  shows "wordCount (contract r) = countWords (htmlContent (contract r))
     \<and> 2000 \<le> wordCount (contract r) \<and> attempts r = k
     \<and> final_document w config k (raw (contract r)) = Inr (htmlContent (contract r))
     \<and> has_htmlContent (raw (contract r))
     \<and> youtubeVideo r = joined_video (youtubePromise config (video_task w))
     \<and> references r = joined_references (referencesPromise config (reference_task w))"
  using assms
  by (auto simp: run_attempt_def Let_def split: prod.splits sum.splits if_splits option.splits)

lemma attempt_loop_cases:
  "attempt_loop w config [a, b, c] reg =
     (case run_attempt w config a reg of
        (Some r, reg1) \<Rightarrow> (Inr r, reg1)
      | (None, reg1) \<Rightarrow>
          (case run_attempt w config b reg1 of
             (Some r, reg2) \<Rightarrow> (Inr r, reg2)
           | (None, reg2) \<Rightarrow>
               (case run_attempt w config c reg2 of
                  (Some r, reg3) \<Rightarrow> (Inr r, reg3)
                | (None, reg3) \<Rightarrow>
                    (Inl (Error ''Content generation failed after 3 attempts''), reg3))))"
  by (simp split: prod.splits option.splits)

lemma strip_tags_aux_frame:
  "strip_tags_aux False (concat (replicate n ''x '') @ s) =
     concat (replicate n ''x '') @ strip_tags_aux False s"
  by (induction n) simp_all

lemma split_ws_aux_frame:
  "split_ws_aux g (concat (replicate (Suc n) ''x '') @ s) [] =
     replicate (Suc n) ''x'' @ split_ws_aux True s []"
  by (induction n arbitrary: g) (simp_all add: is_space_def)

lemma countWords_frame:
  "countWords (frame_words @ s) =
     2000 + length (filter (\<lambda>w. length w > 0) (split_ws_aux True (strip_tags_aux False s) []))"
proof -
  have n: "frame_words @ s \<noteq> []"
    by (simp add: frame_words_def)
  have "split_ws_aux False (concat (replicate (Suc 1999) ''x '') @ strip_tags_aux False s) [] =
      replicate (Suc 1999) ''x'' @ split_ws_aux True (strip_tags_aux False s) []"
    by (rule split_ws_aux_frame)
  then show ?thesis
    using n by (simp add: countWords_def strip_tags_def split_ws_def frame_words_def
        strip_tags_aux_frame del: replicate_Suc replicate.simps)
qed

lemma widgets_count: "countWords (frame_words @ ''<p>Widgets</p>'') = 2001"
proof -
  have "length (filter (\<lambda>w. length w > 0)
      (split_ws_aux True (strip_tags_aux False ''<p>Widgets</p>'') [])) = 1"
    by code_simp
  then show ?thesis
    by (simp add: countWords_frame)
qed

lemma widgets_healed:
  "healJSON JSON_parse widgets_draft =
     \<lparr>success = True,
      data = Some (JObj [(''title'', JStr ''Widgets''), (''htmlContent'', JStr ''<p>Widgets</p>'')]),
      error = None\<rparr>"
  by code_simp

lemma LLMService_call_failure:
  assumes "fst (LLMCache_get (clk 1) prompt cfg (cache svc)) = None
           \<or> fst (LLMCache_get (clk 1) prompt cfg (cache svc)) = Some []"
    and "\<not> fst (CircuitBreaker_isOpen (clk 2) (provider cfg)
               (circuitBreaker (svc\<lparr>cache := snd (LLMCache_get (clk 1) prompt cfg (cache svc))\<rparr>)))"
    and "fst (executeCall cfg net) = Inl e"
  shows "service_failure_count (fst (snd (LLMService_call clk prompt sys cfg net svc))) (provider cfg)
          = service_failure_count svc (provider cfg) + 1"
proof -
  obtain cr c1 where g: "LLMCache_get (clk 1) prompt cfg (cache svc) = (cr, c1)"
    by fastforce
  obtain opn sts1 where o: "CircuitBreaker_isOpen (clk 2) (provider cfg) (circuitBreaker svc) = (opn, sts1)"
    by fastforce
  obtain effs where x: "executeCall cfg net = (Inl e, effs)"
    using assms(3) by (cases "executeCall cfg net") simp
  have s1: "sts1 = snd (getState (provider cfg) (circuitBreaker svc))"
    using o by (auto simp: CircuitBreaker_isOpen_def Let_def split: prod.splits if_splits)
  have n: "\<not> opn" using assms(2) o by simp
  have c: "cr = None \<or> cr = Some []" using assms(1) g by simp
  have "fst (snd (LLMService_call clk prompt sys cfg net svc)) =
      svc\<lparr>cache := c1, circuitBreaker := CircuitBreaker_recordFailure (clk 3) (provider cfg) sts1\<rparr>"
    unfolding LLMService_call_def g using c o n x by auto
  then show ?thesis
    by (simp add: service_failure_count_def CircuitBreaker_recordFailure_at s1 getState_def
        Let_def split: option.splits)
qed

text \<open>
  Claim C4.  For every configuration and every world, \<open>generate\<close> either returns a result
  whose \<open>wordCount\<close> is the word count recomputed from the final assembled, link-injected
  document and is at least 2000, with \<open>attempts\<close> between 1 and 3, or it throws
  ``Content generation failed after 3 attempts'' after all three attempts have failed.
\<close>

theorem generate_word_count_gate:
  "case fst (generate w config reg) of
     Inr r \<Rightarrow>
       wordCount (contract r) = countWords (htmlContent (contract r))
       \<and> 2000 \<le> wordCount (contract r)
       \<and> 1 \<le> attempts r \<and> attempts r \<le> 3
       \<and> final_document w config (attempts r) (raw (contract r)) = Inr (htmlContent (contract r))
   | Inl e \<Rightarrow>
       e = Error ''Content generation failed after 3 attempts''
       \<and> fst (run_attempt w config 1 reg) = None
       \<and> fst (run_attempt w config 2 (snd (run_attempt w config 1 reg))) = None
       \<and> fst (run_attempt w config 3
                (snd (run_attempt w config 2 (snd (run_attempt w config 1 reg))))) = None"
proof -
  obtain o1 reg1 where 1: "run_attempt w config 1 reg = (o1, reg1)" by fastforce
  obtain o2 reg2 where 2: "run_attempt w config 2 reg1 = (o2, reg2)" by fastforce
  obtain o3 reg3 where 3: "run_attempt w config 3 reg2 = (o3, reg3)" by fastforce
  show ?thesis
  proof (cases o1)
    case (Some r)
    with 1 have "fst (run_attempt w config 1 reg) = Some r" by simp
    from run_attempt_Some [OF this] 1 Some show ?thesis
      by (simp add: generate_def generateSingleShot_def attempt_loop_cases)
  next
    case n1: None
    show ?thesis
    proof (cases o2)
      case (Some r)
      with 2 have "fst (run_attempt w config 2 reg1) = Some r" by simp
      from run_attempt_Some [OF this] 1 2 n1 Some show ?thesis
        by (simp add: generate_def generateSingleShot_def attempt_loop_cases)
    next
      case n2: None
      show ?thesis
      proof (cases o3)
        case (Some r)
        with 3 have "fst (run_attempt w config 3 reg2) = Some r" by simp
        from run_attempt_Some [OF this] 1 2 3 n1 n2 Some show ?thesis
          by (simp add: generate_def generateSingleShot_def attempt_loop_cases)
      next
        case None
        with 1 2 3 n1 n2 show ?thesis
          by (simp add: generate_def generateSingleShot_def attempt_loop_cases)
      qed
    qed
  qed
qed

theorem generate_word_count_gate_witness:
  "(case fst (generate (world_of widgets_draft framed_assemble) demo_config Map.empty) of
      Inr r \<Rightarrow> wordCount (contract r) = 2001 \<and> attempts r = 1
    | Inl e \<Rightarrow> False)
   \<and> fst (generate (world_of widgets_draft plain_assemble) demo_config Map.empty)
       = Inl (Error ''Content generation failed after 3 attempts'')"
proof -
  let ?w = "world_of widgets_draft framed_assemble"
  let ?d = "JObj [(''title'', JStr ''Widgets''), (''htmlContent'', JStr ''<p>Widgets</p>'')]"
  have 1: "\<not> fst (isCircuitOpen (time_of ?w 1 0) (provider demo_config) Map.empty)"
    by (simp add: isCircuitOpen_fst getCircuitBreaker_fst)
  have 2: "provider_call (provider demo_config) (answers ?w 1) = Inr widgets_draft"
    by (simp add: world_of_def demo_config_def provider_call_def answering_def
        fetch_adapter_def response_ok_def)
  have 3: "success (healJSON (parse ?w) widgets_draft)"
    by (simp add: world_of_def widgets_healed)
  have 4: "data (healJSON (parse ?w) widgets_draft) = Some ?d"
    by (simp add: world_of_def widgets_healed)
  have 5: "final_document ?w demo_config 1 ?d = Inr (frame_words @ ''<p>Widgets</p>'')"
    by (simp add: final_document_def world_of_def demo_config_def get_prop_def own_prop_def
        framed_assemble_def)
  have 6: "countWords (frame_words @ ''<p>Widgets</p>'') \<ge> 2000"
    by (simp add: widgets_count)
  have a: "fst (run_attempt ?w demo_config 1 Map.empty) =
     Some \<lparr>contract = \<lparr>raw = ?d, htmlContent = frame_words @ ''<p>Widgets</p>'',
                        wordCount = countWords (frame_words @ ''<p>Widgets</p>'')\<rparr>,
           attempts = 1, totalTime = time_of ?w 1 2 - time_of ?w 0 0,
           youtubeVideo = joined_video (youtubePromise demo_config (video_task ?w)),
           references = joined_references (referencesPromise demo_config (reference_task ?w))\<rparr>"
    using 1 2 3 4 5 6 by (rule run_attempt_success)
  have b: "fst (generate ?w demo_config Map.empty) =
     Inr \<lparr>contract = \<lparr>raw = ?d, htmlContent = frame_words @ ''<p>Widgets</p>'',
                        wordCount = countWords (frame_words @ ''<p>Widgets</p>'')\<rparr>,
           attempts = 1, totalTime = time_of ?w 1 2 - time_of ?w 0 0,
           youtubeVideo = joined_video (youtubePromise demo_config (video_task ?w)),
           references = joined_references (referencesPromise demo_config (reference_task ?w))\<rparr>"
    using a by (cases "run_attempt ?w demo_config 1 Map.empty")
      (simp add: generate_def generateSingleShot_def attempt_loop_cases)
  have c: "fst (generate (world_of widgets_draft plain_assemble) demo_config Map.empty)
       = Inl (Error ''Content generation failed after 3 attempts'')"
    by code_simp
  show ?thesis
    using generate_word_count_gate [of ?w demo_config Map.empty]
      generate_word_count_gate [of "world_of widgets_draft plain_assemble" demo_config Map.empty]
      b c
    by (simp add: widgets_count)
qed

















text \<open>
  Claim C3.  In the orchestrator a failed provider call is recorded against the breaker
  exactly when the error message contains 401, 429 or 500; an attempt changes the registry
  only through \<open>callLLM\<close>, so healing, assembly and the word-count gate never record a
  failure, and an attempt whose provider call answered leaves the failure count at 0.  In the
  LLM service every failure of \<open>executeCall\<close> is recorded.
\<close>

theorem breaker_failure_classification:
  fixes w :: world and cfg :: LLMConfig
  shows "(\<not> fst (isCircuitOpen (clk 0) p reg) \<longrightarrow> provider_call p net = Inl e \<longrightarrow>
            failure_count (snd (callLLM clk p net reg)) p =
              (if counts_for_breaker e then failure_count reg p + 1 else failure_count reg p))
     \<and> counts_for_breaker (Error m) =
          (js_includes m ''401'' \<or> js_includes m ''429'' \<or> js_includes m ''500'')
     \<and> \<not> counts_for_breaker Thrown
     \<and> snd (run_attempt w config k reg) =
          snd (callLLM (time_of w k) (provider config) (answers w k) reg)
     \<and> (\<not> fst (isCircuitOpen (time_of w k 0) (provider config) reg) \<longrightarrow>
          provider_call (provider config) (answers w k) = Inr resp \<longrightarrow>
          failure_count (snd (run_attempt w config k reg)) (provider config) = 0)
     \<and> (fst (LLMCache_get (clk 1) prompt cfg (cache svc)) = None
          \<or> fst (LLMCache_get (clk 1) prompt cfg (cache svc)) = Some [] \<longrightarrow>
          \<not> fst (CircuitBreaker_isOpen (clk 2) (provider cfg)
                 (circuitBreaker (svc\<lparr>cache := snd (LLMCache_get (clk 1) prompt cfg (cache svc))\<rparr>))) \<longrightarrow>
          fst (executeCall cfg net') = Inl e' \<longrightarrow>
          service_failure_count (fst (snd (LLMService_call clk prompt sys cfg net' svc)))
            (provider cfg) = service_failure_count svc (provider cfg) + 1)"
proof -
  have a: "\<not> fst (isCircuitOpen (clk 0) p reg) \<longrightarrow> provider_call p net = Inl e \<longrightarrow>
            failure_count (snd (callLLM clk p net reg)) p =
              (if counts_for_breaker e then failure_count reg p + 1 else failure_count reg p)"
    by (simp add: callLLM_failure recordFailure_count isCircuitOpen_count)
  have b: "\<not> fst (isCircuitOpen (time_of w k 0) (provider config) reg) \<longrightarrow>
          provider_call (provider config) (answers w k) = Inr resp \<longrightarrow>
          failure_count (snd (run_attempt w config k reg)) (provider config) = 0"
    by (simp add: run_attempt_registry callLLM_answer recordSuccess_count)
  show ?thesis
    using a b LLMService_call_failure [of clk prompt cfg svc net' e' sys]
    by (simp add: counts_for_breaker_def run_attempt_registry)
qed

theorem breaker_failure_classification_witness:
  "failure_count (snd (callLLM (at_time 0) ''openai'' (answering 500 []) Map.empty)) ''openai'' = 1
   \<and> failure_count (snd (callLLM (at_time 0) ''openai'' (answering 404 []) Map.empty)) ''openai'' = 0
   \<and> fst (run_attempt (world_of garbage_draft plain_assemble) demo_config 1 Map.empty) = None
   \<and> failure_count (snd (run_attempt (world_of garbage_draft plain_assemble) demo_config 1
        Map.empty)) ''openai'' = 0
   \<and> service_failure_count (fst (snd (LLMService_call (at_time 0) ''hello'' ''system'' gpt4o
        (answering 429 []) new_service))) ''openai'' = 1"
proof -
  let ?w = "world_of garbage_draft plain_assemble"
  have 1: "\<not> fst (isCircuitOpen (at_time 0 0) ''openai'' Map.empty)"
    by (simp add: isCircuitOpen_fst getCircuitBreaker_fst)
  have 2: "provider_call ''openai'' (answering 500 []) = Inl (Error ''OpenAI error 500'')"
    by code_simp
  have 3: "provider_call ''openai'' (answering 404 []) = Inl (Error ''OpenAI error 404'')"
    by code_simp
  have 4: "counts_for_breaker (Error ''OpenAI error 500'')"
    "\<not> counts_for_breaker (Error ''OpenAI error 404'')"
    by code_simp+
  have 5: "fst (run_attempt ?w demo_config 1 Map.empty) = None"
    by code_simp
  have 6: "\<not> fst (isCircuitOpen (time_of ?w 1 0) (provider demo_config) Map.empty)"
    by (simp add: isCircuitOpen_fst getCircuitBreaker_fst)
  have 7: "provider_call (provider demo_config) (answers ?w 1) = Inr garbage_draft"
    by (simp add: world_of_def demo_config_def provider_call_def answering_def
        fetch_adapter_def response_ok_def)
  have 8: "fst (LLMCache_get (at_time 0 1) ''hello'' gpt4o (cache new_service)) = None"
    "\<not> fst (CircuitBreaker_isOpen (at_time 0 2) (provider gpt4o)
         (circuitBreaker (new_service\<lparr>cache := snd (LLMCache_get (at_time 0 1) ''hello'' gpt4o
            (cache new_service))\<rparr>)))"
    by (simp_all add: new_service_def LLMCache_get_def CircuitBreaker_isOpen_fst getState_fst)
  have 9: "fst (executeCall gpt4o (answering 429 [])) = Inl (Error ''OpenAI error: 429'')"
    by code_simp
  have 10: "failure_count Map.empty ''openai'' = 0" "service_failure_count new_service ''openai'' = 0"
    "provider gpt4o = ''openai''" "provider demo_config = ''openai''"
    by (simp_all add: failure_count_def service_failure_count_def new_service_def gpt4o_def
        demo_config_def)
  show ?thesis
    using breaker_failure_classification [of "at_time 0" "''openai''" Map.empty "answering 500 []"
        "Error ''OpenAI error 500''" "[]" ?w demo_config 1 garbage_draft "''hello''" gpt4o
        new_service "answering 429 []" "Error ''OpenAI error: 429''" "''system''"]
      breaker_failure_classification [of "at_time 0" "''openai''" Map.empty "answering 404 []"
        "Error ''OpenAI error 404''" "[]" ?w demo_config 1 garbage_draft "''hello''" gpt4o
        new_service "answering 429 []" "Error ''OpenAI error: 429''" "''system''"]
      1 2 3 4 5 6 7 8 9 10
    by simp
qed

theorem breaker_failure_classification_counterexample:
  "provider_call ''openai'' (answering 503 []) = Inl (Error ''OpenAI error 503'')
   \<and> failure_count (snd (callLLM (at_time 0) ''openai'' (answering 503 []) Map.empty)) ''openai'' = 0
   \<and> fst (executeCall gpt4o (answering 400 [])) = Inl (Error ''OpenAI error: 400'')
   \<and> service_failure_count (fst (snd (LLMService_call (at_time 0) ''hello'' ''system'' gpt4o
        (answering 400 []) new_service))) ''openai'' = 1"
  by code_simp


end
